theory Spec2Isabelle
  imports Complex_Main "HOL-Library.Word"
begin

section \<open>Values of the program\<close>

subsection \<open>Exceptions\<close>

text \<open>
  Every \<^verbatim>\<open>raise\<close> of \<^verbatim>\<open>overlay_logos.py\<close> and every exception of the calls it makes is a
  value. The constructor is the Python exception class; \<open>FileNotFoundError\<close> carries the
  message text, which is all that tells the four \<^verbatim>\<open>raise FileNotFoundError(...)\<close> of the
  source apart.
\<close>

datatype py_exc =
    FileNotFoundError string
  | ZeroDivisionError
  | ValueError
  | Cv2Error
  | FileExistsError
  | NotADirectoryError
  | IsADirectoryError

fun exc_class :: "py_exc \<Rightarrow> string" where
  "exc_class (FileNotFoundError m) = ''FileNotFoundError''"
| "exc_class ZeroDivisionError = ''ZeroDivisionError''"
| "exc_class ValueError = ''ValueError''"
| "exc_class Cv2Error = ''cv2.error''"
| "exc_class FileExistsError = ''FileExistsError''"
| "exc_class NotADirectoryError = ''NotADirectoryError''"
| "exc_class IsADirectoryError = ''IsADirectoryError''"

subsection \<open>Python floats\<close>

text \<open>
  A finite Python float is the rational it denotes. \<open>fl\<close> rounds a rational to the nearest
  number with a 53-bit significand, ties to even (IEEE 754 binary64, the exponent range left
  unbounded: the quotients and products below are of image and frame dimensions and stay far
  from overflow and underflow). \<open>py_truediv\<close> is \<^verbatim>\<open>a / b\<close> on two ints, \<open>float_div\<close> and
  \<open>float_mul\<close> are \<^verbatim>\<open>/\<close> and \<^verbatim>\<open>*\<close> with an int on the left and a float on the right, \<open>py_int\<close>
  is \<^verbatim>\<open>int(x)\<close> (truncation toward zero) and \<open>py_round\<close> is \<^verbatim>\<open>round(x)\<close> (ties to even).
\<close>

fun ilog2 :: "nat \<Rightarrow> nat" where
  "ilog2 n = (if n \<le> 1 then 0 else Suc (ilog2 (n div 2)))"

declare ilog2.simps [simp del]

definition pow2 :: "int \<Rightarrow> rat" where
  "pow2 e = (if 0 \<le> e then 2 ^ nat e else 1 / 2 ^ nat (- e))"

definition float_exponent :: "rat \<Rightarrow> int" where
  "float_exponent x =
     (if 1 \<le> x then int (ilog2 (nat \<lfloor>x\<rfloor>))
      else - int (Suc (ilog2 (nat (\<lceil>1 / x\<rceil> - 1)))))"

definition round_half_even :: "rat \<Rightarrow> int" where
  "round_half_even x =
     (let f = \<lfloor>x\<rfloor>; d = x - of_int f
      in if d < 1 / 2 then f
         else if 1 / 2 < d then f + 1
         else if even f then f else f + 1)"

definition fl_pos :: "rat \<Rightarrow> rat" where
  "fl_pos x =
     (let e = float_exponent x - 52
      in of_int (round_half_even (x / pow2 e)) * pow2 e)"

definition fl :: "rat \<Rightarrow> rat" where
  "fl x = (if x = 0 then 0 else if x < 0 then - fl_pos (- x) else fl_pos x)"

definition py_truediv :: "int \<Rightarrow> int \<Rightarrow> py_exc + rat" where
  "py_truediv a b = (if b = 0 then Inl ZeroDivisionError else Inr (fl (of_int a / of_int b)))"

definition float_div :: "int \<Rightarrow> rat \<Rightarrow> py_exc + rat" where
  "float_div a r = (if r = 0 then Inl ZeroDivisionError else Inr (fl (fl (of_int a) / r)))"

definition float_mul :: "int \<Rightarrow> rat \<Rightarrow> rat" where
  "float_mul a r = fl (fl (of_int a) * r)"

definition py_int :: "rat \<Rightarrow> int" where
  "py_int x = (if 0 \<le> x then \<lfloor>x\<rfloor> else \<lceil>x\<rceil>)"

definition py_round :: "rat \<Rightarrow> int" where
  "py_round x = round_half_even x"

definition py_floordiv :: "int \<Rightarrow> int \<Rightarrow> py_exc + int" where
  "py_floordiv a b = (if b = 0 then Inl ZeroDivisionError else Inr (a div b))"

subsection \<open>Arrays\<close>

text \<open>
  A numpy array of 8-bit samples, as \<^verbatim>\<open>cv2.imread\<close>, \<^verbatim>\<open>cv2.resize\<close> and \<^verbatim>\<open>video.read\<close>
  return it: two-dimensional (a greyscale image read with \<^verbatim>\<open>IMREAD_UNCHANGED\<close>, rows of
  samples) or three-dimensional (rows of pixels, a pixel being its channel samples: 3 for BGR,
  4 for BGRA). A decoded video frame is always three-dimensional.
\<close>

type_synonym uint8 = "8 word"

type_synonym array3 = "uint8 list list list"

datatype ndarray = Arr2 "uint8 list list" | Arr3 array3

definition dim1 :: "'a list list \<Rightarrow> nat" where
  "dim1 a = (case a of [] \<Rightarrow> 0 | r # _ \<Rightarrow> length r)"

definition dim2 :: "'a list list list \<Rightarrow> nat" where
  "dim2 a = (case a of [] \<Rightarrow> 0 | r # _ \<Rightarrow> dim1 r)"

text \<open>\<open>is_array3 a h w c\<close>: the nested list \<open>a\<close> is a well-formed array of shape \<open>(h, w, c)\<close>.\<close>

definition is_array3 :: "array3 \<Rightarrow> nat \<Rightarrow> nat \<Rightarrow> nat \<Rightarrow> bool" where
  "is_array3 a h w c =
     (length a = h \<and> list_all (\<lambda>r. length r = w \<and> list_all (\<lambda>p. length p = c) r) a)"

text \<open>\<^verbatim>\<open>image.shape[0]\<close> and \<^verbatim>\<open>image.shape[1]\<close>.\<close>

fun shape0 :: "ndarray \<Rightarrow> nat" where
  "shape0 (Arr2 g) = length g"
| "shape0 (Arr3 a) = length a"

fun shape1 :: "ndarray \<Rightarrow> nat" where
  "shape1 (Arr2 g) = dim1 g"
| "shape1 (Arr3 a) = dim1 a"

subsection \<open>Files\<close>

text \<open>
  What the program reads from a file is what OpenCV decodes from it: \<open>as_video\<close> is the
  stream \<^verbatim>\<open>cv2.VideoCapture\<close> opens (\<open>None\<close>: \<^verbatim>\<open>isOpened()\<close> is false), with the three
  properties \<^verbatim>\<open>video.get\<close> returns as floats and the frames \<^verbatim>\<open>video.read\<close> yields in order;
  \<open>as_image\<close> is the array \<^verbatim>\<open>cv2.imread\<close> returns (\<open>None\<close>: it returns \<^verbatim>\<open>None\<close>).

  The file system maps a path string to a node. Paths are taken in canonical form: one
  string per file or directory (no symbolic links, no \<^verbatim>\<open>.\<close> or \<^verbatim>\<open>..\<close> components, no doubled
  or trailing separators). The root is always a directory and the empty path names nothing.
\<close>

datatype video =
  Video (v_width: rat) (v_height: rat) (v_fps: rat) (v_frames: "array3 list")

datatype decoded = Decoded (as_video: "video option") (as_image: "ndarray option")

datatype node = File_node decoded | Dir_node

type_synonym filesystem = "string \<Rightarrow> node option"

definition is_root :: "string \<Rightarrow> bool" where
  "is_root p = (p \<noteq> [] \<and> list_all (\<lambda>c. c = CHR ''/'') p)"

definition lookup :: "filesystem \<Rightarrow> string \<Rightarrow> node option" where
  "lookup fs p = (if p = [] then None else if is_root p then Some Dir_node else fs p)"

definition os_path_exists :: "filesystem \<Rightarrow> string \<Rightarrow> bool" where
  "os_path_exists fs p = (lookup fs p \<noteq> None)"

text \<open>
  \<^verbatim>\<open>os.path.split\<close> and \<^verbatim>\<open>os.path.dirname\<close> of \<^verbatim>\<open>posixpath\<close>: the head is everything up to the
  last separator, with its trailing separators stripped unless it consists of separators
  only.
\<close>

definition rstrip_sep :: "string \<Rightarrow> string" where
  "rstrip_sep s = rev (dropWhile (\<lambda>c. c = CHR ''/'') (rev s))"

definition os_path_split :: "string \<Rightarrow> string \<times> string" where
  "os_path_split p =
     (let head = rev (dropWhile (\<lambda>c. c \<noteq> CHR ''/'') (rev p));
          tail = rev (takeWhile (\<lambda>c. c \<noteq> CHR ''/'') (rev p))
      in (if head \<noteq> [] \<and> \<not> is_root head then rstrip_sep head else head, tail))"

definition os_path_dirname :: "string \<Rightarrow> string" where
  "os_path_dirname p = fst (os_path_split p)"

definition errno_msg :: "string \<Rightarrow> string" where
  "errno_msg p = ''[Errno 2] No such file or directory: '' @ [CHR 0x27] @ p @ [CHR 0x27]"

text \<open>\<^verbatim>\<open>os.mkdir\<close>: the path must be free and its parent must be a directory.\<close>

definition os_mkdir :: "filesystem \<Rightarrow> string \<Rightarrow> py_exc + filesystem" where
  "os_mkdir fs name =
     (if name = [] then Inl (FileNotFoundError (errno_msg name))
      else if os_path_exists fs name then Inl FileExistsError
      else if os_path_dirname name = [] then Inr (fs(name \<mapsto> Dir_node))
      else (case lookup fs (os_path_dirname name) of
              None \<Rightarrow> Inl (FileNotFoundError (errno_msg name))
            | Some (File_node f) \<Rightarrow> Inl NotADirectoryError
            | Some Dir_node \<Rightarrow> Inr (fs(name \<mapsto> Dir_node))))"

text \<open>\<^verbatim>\<open>os.remove\<close>: deletes a regular file.\<close>

definition os_remove :: "filesystem \<Rightarrow> string \<Rightarrow> py_exc + filesystem" where
  "os_remove fs p =
     (case lookup fs p of
        None \<Rightarrow> Inl (FileNotFoundError (errno_msg p))
      | Some Dir_node \<Rightarrow> Inl IsADirectoryError
      | Some (File_node f) \<Rightarrow> Inr (fs(p := None)))"

text \<open>
  \<^verbatim>\<open>os.makedirs\<close>: creates the directory and, before it, every missing ancestor. The result
  is the exception raised, if any, and the file system as it is left.
\<close>

function os_makedirs :: "filesystem \<Rightarrow> string \<Rightarrow> py_exc option \<times> filesystem" where
  "os_makedirs fs name =
     (if os_path_dirname name \<noteq> [] \<and> os_path_dirname name \<noteq> name
         \<and> \<not> os_path_exists fs (os_path_dirname name)
      then (case os_makedirs fs (os_path_dirname name) of
              (Some e, fs1) \<Rightarrow>
                (if e = FileExistsError
                 then (case os_mkdir fs1 name of Inl e' \<Rightarrow> (Some e', fs1) | Inr fs2 \<Rightarrow> (None, fs2))
                 else (Some e, fs1))
            | (None, fs1) \<Rightarrow>
                (case os_mkdir fs1 name of Inl e' \<Rightarrow> (Some e', fs1) | Inr fs2 \<Rightarrow> (None, fs2)))
      else (case os_mkdir fs name of Inl e' \<Rightarrow> (Some e', fs) | Inr fs2 \<Rightarrow> (None, fs2)))"
  by pat_completeness auto
termination
proof (relation "measure (\<lambda>(fs, name). length name)")
  show "wf (measure (\<lambda>(fs, name). length name))"
    by simp
next
  fix fs :: filesystem and name :: string
  assume a: "os_path_dirname name \<noteq> [] \<and> os_path_dirname name \<noteq> name
      \<and> \<not> os_path_exists fs (os_path_dirname name)"
  define h where "h = rev (dropWhile (\<lambda>c. c \<noteq> CHR ''/'') (rev name))"
  have h: "h = take (length h) name"
    unfolding h_def by (simp add: dropWhile_eq_drop rev_drop)
  have r: "rstrip_sep h = take (length (rstrip_sep h)) h"
    unfolding rstrip_sep_def by (simp add: dropWhile_eq_drop rev_drop)
  have d: "os_path_dirname name = (if h \<noteq> [] \<and> \<not> is_root h then rstrip_sep h else h)"
    unfolding h_def by (simp add: os_path_dirname_def os_path_split_def Let_def)
  have "\<exists>n. os_path_dirname name = take n name"
  proof (cases "h \<noteq> [] \<and> \<not> is_root h")
    case True
    then have "os_path_dirname name = rstrip_sep h"
      using d by simp
    then show ?thesis
      using h r by (metis take_take)
  next
    case False
    then have "os_path_dirname name = h"
      using d by auto
    then show ?thesis
      using h by metis
  qed
  then obtain n where n: "os_path_dirname name = take n name"
    by blast
  have "length (os_path_dirname name) < length name"
  proof (rule ccontr)
    assume "\<not> length (os_path_dirname name) < length name"
    then have "length name \<le> n"
      using n by simp
    then have "os_path_dirname name = name"
      using n by simp
    then show False
      using a by simp
  qed
  then show "((fs, os_path_dirname name), (fs, name)) \<in> measure (\<lambda>(fs, name). length name)"
    by simp
qed

declare os_makedirs.simps [simp del]

text \<open>
  The ancestors of a path, nearest first: its directory, the directory of that, and so on.
  \<open>missing_ancestors\<close> are the ones up to the first that exists, which are those
  \<^verbatim>\<open>os.makedirs\<close> has to create; \<open>nearest_ancestor_is_dir\<close> says that the first that exists,
  if there is one, is a directory.
\<close>

function ancestors :: "string \<Rightarrow> string list" where
  "ancestors name =
     (if os_path_dirname name \<noteq> [] \<and> os_path_dirname name \<noteq> name
      then os_path_dirname name # ancestors (os_path_dirname name) else [])"
  by pat_completeness auto
termination
proof (relation "measure length")
  show "wf (measure length)"
    by simp
next
  fix name :: string
  assume a: "os_path_dirname name \<noteq> [] \<and> os_path_dirname name \<noteq> name"
  define h where "h = rev (dropWhile (\<lambda>c. c \<noteq> CHR ''/'') (rev name))"
  have h: "h = take (length h) name"
    unfolding h_def by (simp add: dropWhile_eq_drop rev_drop)
  have r: "rstrip_sep h = take (length (rstrip_sep h)) h"
    unfolding rstrip_sep_def by (simp add: dropWhile_eq_drop rev_drop)
  have d: "os_path_dirname name = (if h \<noteq> [] \<and> \<not> is_root h then rstrip_sep h else h)"
    unfolding h_def by (simp add: os_path_dirname_def os_path_split_def Let_def)
  have "\<exists>n. os_path_dirname name = take n name"
  proof (cases "h \<noteq> [] \<and> \<not> is_root h")
    case True
    then have "os_path_dirname name = rstrip_sep h"
      using d by simp
    then show ?thesis
      using h r by (metis take_take)
  next
    case False
    then have "os_path_dirname name = h"
      using d by auto
    then show ?thesis
      using h by metis
  qed
  then obtain n where n: "os_path_dirname name = take n name"
    by blast
  have "length (os_path_dirname name) < length name"
  proof (rule ccontr)
    assume "\<not> length (os_path_dirname name) < length name"
    then have "length name \<le> n"
      using n by simp
    then have "os_path_dirname name = name"
      using n by simp
    then show False
      using a by simp
  qed
  then show "(os_path_dirname name, name) \<in> measure length"
    by simp
qed

declare ancestors.simps [simp del]

definition missing_ancestors :: "filesystem \<Rightarrow> string \<Rightarrow> string list" where
  "missing_ancestors fs name = takeWhile (\<lambda>a. \<not> os_path_exists fs a) (ancestors name)"

definition nearest_ancestor_is_dir :: "filesystem \<Rightarrow> string \<Rightarrow> bool" where
  "nearest_ancestor_is_dir fs name =
     (case dropWhile (\<lambda>a. \<not> os_path_exists fs a) (ancestors name) of
        [] \<Rightarrow> True
      | a # _ \<Rightarrow> lookup fs a = Some Dir_node)"

subsection \<open>OpenCV and imageio\<close>

text \<open>
  \<^verbatim>\<open>cv2.imread(path, cv2.IMREAD_UNCHANGED)\<close> and \<^verbatim>\<open>cv2.VideoCapture(path)\<close> read what the
  file decodes to; a directory or a missing path decodes to nothing.
\<close>

definition cv2_imread :: "filesystem \<Rightarrow> string \<Rightarrow> ndarray option" where
  "cv2_imread fs p = (case lookup fs p of Some (File_node f) \<Rightarrow> as_image f | _ \<Rightarrow> None)"

definition cv2_VideoCapture :: "filesystem \<Rightarrow> string \<Rightarrow> video option" where
  "cv2_VideoCapture fs p = (case lookup fs p of Some (File_node f) \<Rightarrow> as_video f | _ \<Rightarrow> None)"

text \<open>
  \<^verbatim>\<open>cv2.resize(image, (new_width, new_height))\<close> raises \<^verbatim>\<open>cv2.error\<close> on an empty source or
  an empty target size, and otherwise returns an array of \<open>new_height\<close> rows and \<open>new_width\<close>
  columns with the channels of the source. The interpolated samples are a parameter of the
  model: \<open>ip img h w i j k\<close> is sample \<open>k\<close> of the pixel in row \<open>i\<close> and column \<open>j\<close> of
  \<open>img\<close> resized to \<open>h\<close> rows and \<open>w\<close> columns.
\<close>

type_synonym interp = "ndarray \<Rightarrow> nat \<Rightarrow> nat \<Rightarrow> nat \<Rightarrow> nat \<Rightarrow> nat \<Rightarrow> uint8"

definition cv2_resize :: "interp \<Rightarrow> ndarray \<Rightarrow> int \<Rightarrow> int \<Rightarrow> py_exc + ndarray" where
  "cv2_resize ip img new_width new_height =
     (if shape0 img = 0 \<or> shape1 img = 0 \<or> new_width \<le> 0 \<or> new_height \<le> 0
      then Inl Cv2Error
      else Inr (case img of
                  Arr2 g \<Rightarrow>
                    Arr2 (map (\<lambda>i. map (\<lambda>j. ip img (nat new_height) (nat new_width) i j 0)
                                [0..<nat new_width]) [0..<nat new_height])
                | Arr3 a \<Rightarrow>
                    Arr3 (map (\<lambda>i. map (\<lambda>j. map (\<lambda>k. ip img (nat new_height) (nat new_width) i j k)
                                [0..<dim2 a]) [0..<nat new_width]) [0..<nat new_height])))"

text \<open>
  \<^verbatim>\<open>cv2.cvtColor(frame, cv2.COLOR_BGR2RGB)\<close>: the first three channels in reverse order; the
  source must have 3 or 4 channels.
\<close>

definition cv2_cvtColor_BGR2RGB :: "array3 \<Rightarrow> py_exc + array3" where
  "cv2_cvtColor_BGR2RGB frame =
     (if frame = [] \<or> dim1 frame = 0 \<or> (dim2 frame \<noteq> 3 \<and> dim2 frame \<noteq> 4) then Inl Cv2Error
      else Inr (map (map (\<lambda>p. [p ! 2, p ! 1, p ! 0])) frame))"

text \<open>
  The imageio writer is a sink outside the repository: it records the path and frame rate it
  was opened with, the frames appended in order, and whether it was closed.
\<close>

datatype writer =
  Writer (w_path: string) (w_fps: rat) (w_frames: "array3 list") (w_closed: bool)

definition imageio_get_writer :: "string \<Rightarrow> rat \<Rightarrow> writer" where
  "imageio_get_writer output_path fps = Writer output_path fps [] False"

definition append_data :: "writer \<Rightarrow> array3 \<Rightarrow> writer" where
  "append_data w f = Writer (w_path w) (w_fps w) (w_frames w @ [f]) (w_closed w)"

definition writer_close :: "writer \<Rightarrow> writer" where
  "writer_close w = Writer (w_path w) (w_fps w) (w_frames w) True"


subsection \<open>Slice assignment\<close>

text \<open>
  \<^verbatim>\<open>frame[ya:yb, xa:xb] = value\<close> on a three-dimensional \<open>frame\<close>. Python clips the bounds of
  a slice to the axis, a negative bound counting from the end; numpy then broadcasts \<open>value\<close>
  to the shape of the selected region, every axis of \<open>value\<close> having the length of the
  region's or length 1, and raises \<^verbatim>\<open>ValueError\<close> when it cannot. A two-dimensional
  \<open>value\<close> is broadcast as an array with one leading axis of length 1.
\<close>

definition slice_bound :: "int \<Rightarrow> nat \<Rightarrow> nat" where
  "slice_bound v n = (if v < 0 then nat (max (v + int n) 0) else min (nat v) n)"

fun as3d :: "ndarray \<Rightarrow> array3" where
  "as3d (Arr2 g) = [g]"
| "as3d (Arr3 a) = a"

definition bidx :: "nat \<Rightarrow> nat \<Rightarrow> nat" where
  "bidx n i = (if n = 1 then 0 else i)"

definition broadcastable :: "array3 \<Rightarrow> nat \<Rightarrow> nat \<Rightarrow> nat \<Rightarrow> bool" where
  "broadcastable v lr lc c =
     ((length v = lr \<or> length v = 1) \<and> (dim1 v = lc \<or> dim1 v = 1) \<and> (dim2 v = c \<or> dim2 v = 1))"

definition setitem_rect :: "array3 \<Rightarrow> int \<Rightarrow> int \<Rightarrow> int \<Rightarrow> int \<Rightarrow> ndarray \<Rightarrow> py_exc + array3" where
  "setitem_rect frame ya yb xa xb val =
     (let r0 = slice_bound ya (length frame); r1 = slice_bound yb (length frame);
          c0 = slice_bound xa (dim1 frame); c1 = slice_bound xb (dim1 frame);
          v = as3d val
      in if broadcastable v (r1 - r0) (c1 - c0) (dim2 frame)
         then Inr (map (\<lambda>i.
                if r0 \<le> i \<and> i < r1
                then map (\<lambda>j.
                       if c0 \<le> j \<and> j < c1
                       then map (\<lambda>k. v ! bidx (length v) (i - r0) ! bidx (dim1 v) (j - c0)
                                       ! bidx (dim2 v) k) [0..<dim2 frame]
                       else frame ! i ! j) [0..<dim1 frame]
                else frame ! i) [0..<length frame])
         else Inl ValueError)"

section \<open>The program: \<^verbatim>\<open>overlay_logos.py\<close>\<close>

subsection \<open>\<^verbatim>\<open>load_and_resize_logo\<close>\<close>

definition quoted :: "string \<Rightarrow> string" where
  "quoted p = [CHR 0x27] @ p @ [CHR 0x27]"

definition msg_logo_not_found :: "string \<Rightarrow> string" where
  "msg_logo_not_found logo_path = ''Logo image '' @ quoted logo_path @ '' not found''"

definition msg_logo_load_failed :: "string \<Rightarrow> string" where
  "msg_logo_load_failed logo_path = ''Failed to load logo image from '' @ quoted logo_path @ ''.''"

definition msg_video_not_found :: "string \<Rightarrow> string" where
  "msg_video_not_found background = ''Video file '' @ quoted background @ '' not found''"

definition msg_video_cannot_open :: "string \<Rightarrow> string" where
  "msg_video_cannot_open background = ''Cannot open video file '' @ quoted background"

text \<open>The nested function \<^verbatim>\<open>resize_with_aspect_ratio\<close> (lines 37 to 46).\<close>

definition resize_with_aspect_ratio ::
  "interp \<Rightarrow> ndarray \<Rightarrow> int \<Rightarrow> int \<Rightarrow> py_exc + (ndarray \<times> int \<times> int)" where
  "resize_with_aspect_ratio ip img target_width target_height =
     (case py_truediv (int (shape1 img)) (int (shape0 img)) of
        Inl e \<Rightarrow> Inl e
      | Inr aspect_ratio \<Rightarrow>
          (if 1 < aspect_ratio then
             (case float_div target_width aspect_ratio of
                Inl e \<Rightarrow> Inl e
              | Inr q \<Rightarrow>
                  (case cv2_resize ip img target_width (py_int q) of
                     Inl e \<Rightarrow> Inl e
                   | Inr resized_image \<Rightarrow> Inr (resized_image, target_width, py_int q)))
           else
             (case cv2_resize ip img (py_int (float_mul target_height aspect_ratio)) target_height of
                Inl e \<Rightarrow> Inl e
              | Inr resized_image \<Rightarrow>
                  Inr (resized_image, py_int (float_mul target_height aspect_ratio), target_height))))"

definition load_and_resize_logo ::
  "interp \<Rightarrow> filesystem \<Rightarrow> string \<Rightarrow> int \<Rightarrow> int \<Rightarrow> int \<Rightarrow> py_exc + (ndarray \<times> int \<times> int)" where
  "load_and_resize_logo ip fs logo_path frame_width frame_height scale_factor =
     (if \<not> os_path_exists fs logo_path then Inl (FileNotFoundError (msg_logo_not_found logo_path))
      else (case cv2_imread fs logo_path of
              None \<Rightarrow> Inl (FileNotFoundError (msg_logo_load_failed logo_path))
            | Some logo \<Rightarrow>
                (case py_floordiv frame_width scale_factor of
                   Inl e \<Rightarrow> Inl e
                 | Inr logo_width \<Rightarrow>
                     (case py_floordiv frame_height scale_factor of
                        Inl e \<Rightarrow> Inl e
                      | Inr logo_height \<Rightarrow>
                          resize_with_aspect_ratio ip logo logo_width logo_height))))"

subsection \<open>\<^verbatim>\<open>process_video\<close>\<close>

text \<open>The body of the loop (lines 71 to 77): the two slice assignments on one frame.\<close>

definition process_frame ::
  "ndarray \<Rightarrow> int \<Rightarrow> int \<Rightarrow> ndarray \<Rightarrow> int \<Rightarrow> int \<Rightarrow> int \<Rightarrow> int \<Rightarrow> array3 \<Rightarrow> py_exc + array3" where
  "process_frame logo1 logo1_width logo1_height logo2 logo2_width logo2_height
       frame_width frame_height frame =
     (let overlay_x1 = frame_width div 4 - logo1_width div 2;
          overlay_y1 = frame_height div 2 - logo1_height div 2
      in case setitem_rect frame overlay_y1 (overlay_y1 + logo1_height)
                overlay_x1 (overlay_x1 + logo1_width) logo1 of
           Inl e \<Rightarrow> Inl e
         | Inr frame1 \<Rightarrow>
             (let overlay_x2 = frame_width * 3 div 4 - logo2_width div 2;
                  overlay_y2 = frame_height div 2 - logo2_height div 2
              in setitem_rect frame1 overlay_y2 (overlay_y2 + logo2_height)
                   overlay_x2 (overlay_x2 + logo2_width) logo2))"

text \<open>
  The loop (lines 66 to 79) over the frames \<^verbatim>\<open>video.read\<close> still has to yield. An exception
  leaves the loop with the writer as it is; the end of the stream ends it normally.
\<close>

fun stream_frames ::
  "ndarray \<Rightarrow> int \<Rightarrow> int \<Rightarrow> ndarray \<Rightarrow> int \<Rightarrow> int \<Rightarrow> int \<Rightarrow> int \<Rightarrow> array3 list \<Rightarrow> writer
     \<Rightarrow> py_exc option \<times> writer" where
  "stream_frames logo1 w1 h1 logo2 w2 h2 fw fh [] wr = (None, wr)"
| "stream_frames logo1 w1 h1 logo2 w2 h2 fw fh (frame # rest) wr =
     (case process_frame logo1 w1 h1 logo2 w2 h2 fw fh frame of
        Inl e \<Rightarrow> (Some e, wr)
      | Inr composited \<Rightarrow>
          (case cv2_cvtColor_BGR2RGB composited of
             Inl e \<Rightarrow> (Some e, wr)
           | Inr rgb \<Rightarrow> stream_frames logo1 w1 h1 logo2 w2 h2 fw fh rest (append_data wr rgb)))"

text \<open>
  \<^verbatim>\<open>process_video\<close> opens the path again; a capture that did not open yields no frame.
\<close>

definition process_video ::
  "filesystem \<Rightarrow> string \<Rightarrow> ndarray \<Rightarrow> int \<Rightarrow> int \<Rightarrow> ndarray \<Rightarrow> int \<Rightarrow> int \<Rightarrow> writer \<Rightarrow> int \<Rightarrow> int
     \<Rightarrow> py_exc option \<times> writer" where
  "process_video fs video_path logo1 logo1_width logo1_height logo2 logo2_width logo2_height
       wr frame_width frame_height =
     stream_frames logo1 logo1_width logo1_height logo2 logo2_width logo2_height
       frame_width frame_height
       (case cv2_VideoCapture fs video_path of None \<Rightarrow> [] | Some v \<Rightarrow> v_frames v) wr"

subsection \<open>\<^verbatim>\<open>overlay_logos\<close>\<close>

text \<open>Lines 112 to 117: the output directory and the stale output file.\<close>

definition prepare_output :: "filesystem \<Rightarrow> string \<Rightarrow> py_exc option \<times> filesystem" where
  "prepare_output fs output_path =
     (case (if os_path_dirname output_path \<noteq> [] \<and> \<not> os_path_exists fs (os_path_dirname output_path)
            then os_makedirs fs (os_path_dirname output_path) else (None, fs)) of
        (Some e, fs1) \<Rightarrow> (Some e, fs1)
      | (None, fs1) \<Rightarrow>
          (if os_path_exists fs1 output_path
           then (case os_remove fs1 output_path of
                   Inl e \<Rightarrow> (Some e, fs1)
                 | Inr fs2 \<Rightarrow> (None, fs2))
           else (None, fs1)))"

text \<open>
  The result of a run: the exception that left \<^verbatim>\<open>overlay_logos\<close> (\<open>None\<close>: it returned),
  the file system as the run left it, and the writer, if one was opened.
\<close>

definition overlay_logos ::
  "interp \<Rightarrow> filesystem \<Rightarrow> string \<Rightarrow> string \<Rightarrow> string \<Rightarrow> string \<Rightarrow> int
     \<Rightarrow> py_exc option \<times> filesystem \<times> writer option" where
  "overlay_logos ip fs background left_logo right_logo output_path scale_factor =
     (if \<not> os_path_exists fs background
      then (Some (FileNotFoundError (msg_video_not_found background)), fs, None)
      else (case cv2_VideoCapture fs background of
              None \<Rightarrow> (Some (FileNotFoundError (msg_video_cannot_open background)), fs, None)
            | Some video \<Rightarrow>
                (case load_and_resize_logo ip fs left_logo
                        (py_int (v_width video)) (py_int (v_height video)) scale_factor of
                   Inl e \<Rightarrow> (Some e, fs, None)
                 | Inr (logo1, logo1_width, logo1_height) \<Rightarrow>
                     (case load_and_resize_logo ip fs right_logo
                             (py_int (v_width video)) (py_int (v_height video)) scale_factor of
                        Inl e \<Rightarrow> (Some e, fs, None)
                      | Inr (logo2, logo2_width, logo2_height) \<Rightarrow>
                          (case prepare_output fs output_path of
                             (Some e, fs1) \<Rightarrow> (Some e, fs1, None)
                           | (None, fs1) \<Rightarrow>
                               (case process_video fs1 background logo1 logo1_width logo1_height
                                       logo2 logo2_width logo2_height
                                       (imageio_get_writer output_path (v_fps video))
                                       (py_int (v_width video)) (py_int (v_height video)) of
                                  (Some e, wr) \<Rightarrow> (Some e, fs1, Some wr)
                                | (None, wr) \<Rightarrow> (None, fs1, Some (writer_close wr))))))))"

section \<open>The resize as the specification words it\<close>

text \<open>
  The specification's resize: with \<open>r\<close> the width of the image over its height, the axis that
  is not saturated is \<^verbatim>\<open>round(new_width / r)\<close> or \<^verbatim>\<open>round(new_height * r)\<close>.
\<close>

definition spec_resized_dims :: "ndarray \<Rightarrow> int \<Rightarrow> int \<Rightarrow> py_exc + (int \<times> int)" where
  "spec_resized_dims img target_width target_height =
     (case py_truediv (int (shape1 img)) (int (shape0 img)) of
        Inl e \<Rightarrow> Inl e
      | Inr r \<Rightarrow>
          (if 1 < r then
             (case float_div target_width r of
                Inl e \<Rightarrow> Inl e
              | Inr q \<Rightarrow> Inr (target_width, py_round q))
           else Inr (py_round (float_mul target_height r), target_height)))"

section \<open>Example inputs\<close>

text \<open>
  Concrete inputs on which the theorems below are evaluated: a nearest-neighbour
  interpolation for \<open>cv2_resize\<close>, images of one colour, and small file systems.
\<close>

definition nearest :: interp where
  "nearest img h w i j k =
     (case img of
        Arr2 g \<Rightarrow> g ! (i * length g div h) ! (j * dim1 g div w)
      | Arr3 a \<Rightarrow> a ! (i * length a div h) ! (j * dim1 a div w) ! k)"

definition solid :: "nat \<Rightarrow> nat \<Rightarrow> uint8 list \<Rightarrow> ndarray" where
  "solid h w px = Arr3 (replicate h (replicate w px))"

definition image_file :: "ndarray \<Rightarrow> node" where
  "image_file a = File_node (Decoded None (Some a))"

definition video_file :: "video \<Rightarrow> node" where
  "video_file v = File_node (Decoded (Some v) None)"

text \<open>A logo three pixels wide and two high, alone in the working directory.\<close>

definition fs_wide_logo :: filesystem where
  "fs_wide_logo = Map.empty(''logo.png'' \<mapsto> image_file (solid 2 3 [10, 20, 30]))"

text \<open>
  A working directory with a background video of one black frame, 8 wide and 4 high, a video
  without frames, logos of one colour (one of them with an alpha channel, one of them a
  banner 8 wide and 1 high), and files that decode neither as a video nor as an image.
\<close>

definition frame_8x4 :: array3 where
  "frame_8x4 = replicate 4 (replicate 8 [0, 0, 0])"

definition fs_demo :: filesystem where
  "fs_demo = Map.empty(
     ''bg.mp4'' \<mapsto> video_file (Video 8 4 30 [frame_8x4]),
     ''empty.mp4'' \<mapsto> video_file (Video 8 4 30 []),
     ''corrupt.mp4'' \<mapsto> File_node (Decoded None None),
     ''left.png'' \<mapsto> image_file (solid 2 2 [1, 2, 3]),
     ''right.png'' \<mapsto> image_file (solid 2 2 [4, 5, 6]),
     ''alpha.png'' \<mapsto> image_file (solid 2 2 [1, 2, 3, 255]),
     ''banner.png'' \<mapsto> image_file (solid 1 8 [7, 8, 9]),
     ''notes.txt'' \<mapsto> File_node (Decoded None None),
     ''stale.mp4'' \<mapsto> File_node (Decoded None None))"

text \<open>
  Two logos of 2 by 2 pixels, and the frame of 8 by 4 with the first pasted at column 1, row
  1 and the second at column 5, row 1.
\<close>

definition logo_left :: array3 where
  "logo_left = replicate 2 (replicate 2 [1, 2, 3])"

definition logo_right :: array3 where
  "logo_right = replicate 2 (replicate 2 [4, 5, 6])"

definition composited_8x4 :: array3 where
  "composited_8x4 =
     [replicate 8 [0, 0, 0],
      [[0, 0, 0], [1, 2, 3], [1, 2, 3], [0, 0, 0], [0, 0, 0], [4, 5, 6], [4, 5, 6], [0, 0, 0]],
      [[0, 0, 0], [1, 2, 3], [1, 2, 3], [0, 0, 0], [0, 0, 0], [4, 5, 6], [4, 5, 6], [0, 0, 0]],
      replicate 8 [0, 0, 0]]"


text \<open>A run whose output path lies two directories below the working directory.\<close>

definition run_nested :: "py_exc option \<times> filesystem \<times> writer option" where
  "run_nested = overlay_logos nearest fs_demo ''bg.mp4'' ''left.png'' ''right.png'' ''out/x/o.mp4'' 2"

section \<open>Properties of the logo loader\<close>

lemma cv2_resize_InrD:
  "cv2_resize ip img w h = Inr logo \<Longrightarrow>
     0 < w \<and> 0 < h \<and> shape0 logo = nat h \<and> shape1 logo = nat w"
  by (auto simp add: cv2_resize_def dim1_def upt_conv_Cons
      split: if_splits ndarray.splits list.splits)

lemma resize_with_aspect_ratio_InrD:
  assumes "resize_with_aspect_ratio ip img tw th = Inr (logo, w, h)"
  shows "\<exists>r. py_truediv (int (shape1 img)) (int (shape0 img)) = Inr r
           \<and> (if 1 < r then w = tw \<and> (\<exists>q. float_div tw r = Inr q \<and> h = py_int q)
               else h = th \<and> w = py_int (float_mul th r))
           \<and> cv2_resize ip img w h = Inr logo"
  using assms
  by (auto simp add: resize_with_aspect_ratio_def split: sum.splits if_splits)

lemma load_and_resize_logo_InrD:
  assumes "load_and_resize_logo ip fs p fw fh sf = Inr res"
  shows "sf \<noteq> 0 \<and> os_path_exists fs p
           \<and> (\<exists>img. cv2_imread fs p = Some img
                 \<and> resize_with_aspect_ratio ip img (fw div sf) (fh div sf) = Inr res)"
  using assms
  by (auto simp add: load_and_resize_logo_def py_floordiv_def
      split: option.splits sum.splits if_splits)

lemma py_round_floor: "\<lfloor>x\<rfloor> \<le> py_round x \<and> py_round x \<le> \<lfloor>x\<rfloor> + 1"
  by (simp add: py_round_def round_half_even_def Let_def)

lemma py_int_pos: "0 < py_int x \<Longrightarrow> py_int x = \<lfloor>x\<rfloor>"
  by (auto simp add: py_int_def split: if_splits)

text \<open>
  C1, as stated: for every frame size, every scale factor above 0 and every logo, the resized
  width is at most \<open>frame_width div scale_factor\<close> and the resized height is at most
  \<open>frame_height div scale_factor\<close>, with equality on one axis. This fails: on a frame of
  40 by 16 with scale factor 4 the box is 10 by 4, and a logo 3 wide and 2 high has aspect
  ratio 1.5, so the width is saturated at 10 and the height becomes \<open>int(10 / 1.5) = 6\<close>,
  above the 4 of the box.
\<close>

theorem resized_logo_exceeds_box:
  "map_sum id snd (load_and_resize_logo nearest fs_wide_logo ''logo.png'' 40 16 4) = Inr (10, 6)
    \<and> \<not> ((6::int) \<le> 16 div 4)"
  by code_simp

text \<open>
  C1, amended: whenever \<open>load_and_resize_logo\<close> returns, one axis of the result is saturated,
  the width (equal to \<open>frame_width div scale_factor\<close>) when the float aspect ratio of the logo
  is above 1 and the height (equal to \<open>frame_height div scale_factor\<close>) otherwise; both
  returned dimensions are positive and are the shape of the returned array. The other axis is
  not bounded by the box.
\<close>

theorem resized_logo_saturates_one_axis:
  assumes "load_and_resize_logo ip fs p fw fh sf = Inr (logo, w, h)"
  shows "\<exists>img r. cv2_imread fs p = Some img
           \<and> py_truediv (int (shape1 img)) (int (shape0 img)) = Inr r
           \<and> (if 1 < r then w = fw div sf else h = fh div sf)
           \<and> (w = fw div sf \<or> h = fh div sf)
           \<and> 0 < w \<and> 0 < h \<and> shape1 logo = nat w \<and> shape0 logo = nat h"
proof -
  from load_and_resize_logo_InrD [OF assms]
  obtain img where img: "cv2_imread fs p = Some img"
    and rs: "resize_with_aspect_ratio ip img (fw div sf) (fh div sf) = Inr (logo, w, h)"
    by blast
  from resize_with_aspect_ratio_InrD [OF rs]
  obtain r where r: "py_truediv (int (shape1 img)) (int (shape0 img)) = Inr r"
    and br: "if 1 < r then w = fw div sf \<and> (\<exists>q. float_div (fw div sf) r = Inr q \<and> h = py_int q)
               else h = fh div sf \<and> w = py_int (float_mul (fh div sf) r)"
    and cv: "cv2_resize ip img w h = Inr logo"
    by blast
  from cv2_resize_InrD [OF cv]
  have pos: "0 < w \<and> 0 < h \<and> shape0 logo = nat h \<and> shape1 logo = nat w" .
  show ?thesis
    using img r br pos by (cases "1 < r") auto
qed

theorem resized_logo_saturates_one_axis_witness:
  "load_and_resize_logo nearest fs_wide_logo ''logo.png'' 40 16 4
      = Inr (solid 6 10 [10, 20, 30], 10, 6)
    \<and> (\<exists>img r. cv2_imread fs_wide_logo ''logo.png'' = Some img
           \<and> py_truediv (int (shape1 img)) (int (shape0 img)) = Inr r
           \<and> (if 1 < r then (10::int) = 40 div 4 else (6::int) = 16 div 4)
           \<and> ((10::int) = 40 div 4 \<or> (6::int) = 16 div 4)
           \<and> (0::int) < 10 \<and> (0::int) < 6
           \<and> shape1 (solid 6 10 [10, 20, 30]) = nat 10
           \<and> shape0 (solid 6 10 [10, 20, 30]) = nat 6)"
proof -
  have e: "load_and_resize_logo nearest fs_wide_logo ''logo.png'' 40 16 4
             = Inr (solid 6 10 [10, 20, 30], 10, 6)"
    by code_simp
  show ?thesis
    by (intro conjI e resized_logo_saturates_one_axis [OF e])
qed

text \<open>
  C3, as stated: the axis that is not saturated is rounded to the nearest integer. This
  fails: for a logo 3 wide and 2 high in a box of 10 by 10 the quotient is
  \<open>10 / 1.5 = 6.67\<close>; the code returns the height 6, rounding gives 7.
\<close>

theorem resize_differs_from_rounding:
  "map_sum id snd (load_and_resize_logo nearest fs_wide_logo ''logo.png'' 40 40 4) = Inr (10, 6)
    \<and> spec_resized_dims (solid 2 3 [10, 20, 30]) (40 div 4) (40 div 4) = Inr (10, 7)"
  by code_simp

text \<open>
  C3, amended: the axis that is not saturated is truncated, not rounded. With \<open>r\<close> the float
  quotient of the image's width by its height: if \<open>r > 1\<close> the new width is
  \<open>frame_width div scale_factor\<close> and the new height is the floor of the float quotient
  \<open>new_width / r\<close>; otherwise the new height is \<open>frame_height div scale_factor\<close> and the new
  width is the floor of the float product \<open>new_height * r\<close>. The rounded value of the
  specification is the code's value or one more.
\<close>

theorem resize_truncates:
  assumes "load_and_resize_logo ip fs p fw fh sf = Inr (logo, w, h)"
  shows "\<exists>img r. cv2_imread fs p = Some img
           \<and> py_truediv (int (shape1 img)) (int (shape0 img)) = Inr r
           \<and> (if 1 < r
               then w = fw div sf
                 \<and> (\<exists>q. float_div w r = Inr q \<and> h = \<lfloor>q\<rfloor>
                        \<and> h \<le> py_round q \<and> py_round q \<le> h + 1)
               else h = fh div sf
                 \<and> w = \<lfloor>float_mul h r\<rfloor>
                 \<and> w \<le> py_round (float_mul h r) \<and> py_round (float_mul h r) \<le> w + 1)"
proof -
  from load_and_resize_logo_InrD [OF assms]
  obtain img where img: "cv2_imread fs p = Some img"
    and rs: "resize_with_aspect_ratio ip img (fw div sf) (fh div sf) = Inr (logo, w, h)"
    by blast
  from resize_with_aspect_ratio_InrD [OF rs]
  obtain r where r: "py_truediv (int (shape1 img)) (int (shape0 img)) = Inr r"
    and br: "if 1 < r then w = fw div sf \<and> (\<exists>q. float_div (fw div sf) r = Inr q \<and> h = py_int q)
               else h = fh div sf \<and> w = py_int (float_mul (fh div sf) r)"
    and cv: "cv2_resize ip img w h = Inr logo"
    by blast
  from cv2_resize_InrD [OF cv] have pos: "0 < w" "0 < h"
    by simp_all
  show ?thesis
  proof (cases "1 < r")
    case True
    with br obtain q where w: "w = fw div sf" and q: "float_div w r = Inr q" and h: "h = py_int q"
      by auto
    from h pos(2) have "h = \<lfloor>q\<rfloor>"
      using py_int_pos [of q] by simp
    then show ?thesis
      using img r True w q py_round_floor [of q] by auto
  next
    case False
    with br have h: "h = fh div sf" and w: "w = py_int (float_mul h r)"
      by auto
    from w pos(1) have "w = \<lfloor>float_mul h r\<rfloor>"
      using py_int_pos [of "float_mul h r"] by simp
    then show ?thesis
      using img r False h py_round_floor [of "float_mul h r"] by auto
  qed
qed

theorem resize_truncates_witness:
  "load_and_resize_logo nearest fs_wide_logo ''logo.png'' 40 40 4
      = Inr (solid 6 10 [10, 20, 30], 10, 6)
    \<and> (\<exists>img r. cv2_imread fs_wide_logo ''logo.png'' = Some img
           \<and> py_truediv (int (shape1 img)) (int (shape0 img)) = Inr r
           \<and> (if 1 < r
               then (10::int) = 40 div 4
                 \<and> (\<exists>q. float_div 10 r = Inr q \<and> (6::int) = \<lfloor>q\<rfloor>
                        \<and> 6 \<le> py_round q \<and> py_round q \<le> 6 + 1)
               else (6::int) = 40 div 4
                 \<and> (10::int) = \<lfloor>float_mul 6 r\<rfloor>
                 \<and> 10 \<le> py_round (float_mul 6 r) \<and> py_round (float_mul 6 r) \<le> 10 + 1))"
proof -
  have e: "load_and_resize_logo nearest fs_wide_logo ''logo.png'' 40 40 4
             = Inr (solid 6 10 [10, 20, 30], 10, 6)"
    by code_simp
  show ?thesis
    by (intro conjI e resize_truncates [OF e])
qed

section \<open>Failures of \<^verbatim>\<open>overlay_logos\<close>\<close>

lemma load_and_resize_logo_InlD:
  "load_and_resize_logo ip fs p fw fh sf = Inl e \<Longrightarrow>
     e = FileNotFoundError (msg_logo_not_found p) \<and> \<not> os_path_exists fs p
     \<or> e = FileNotFoundError (msg_logo_load_failed p) \<and> os_path_exists fs p \<and> cv2_imread fs p = None
     \<or> (e = ZeroDivisionError \<or> e = Cv2Error) \<and> os_path_exists fs p \<and> cv2_imread fs p \<noteq> None"
  by (auto simp add: load_and_resize_logo_def py_floordiv_def resize_with_aspect_ratio_def
      py_truediv_def float_div_def cv2_resize_def
      split: option.splits sum.splits if_splits)

lemma load_and_resize_logo_missing:
  "\<not> os_path_exists fs p \<Longrightarrow>
     load_and_resize_logo ip fs p fw fh sf = Inl (FileNotFoundError (msg_logo_not_found p))"
  by (simp add: load_and_resize_logo_def)

lemma load_and_resize_logo_undecodable:
  "os_path_exists fs p \<Longrightarrow> cv2_imread fs p = None \<Longrightarrow>
     load_and_resize_logo ip fs p fw fh sf = Inl (FileNotFoundError (msg_logo_load_failed p))"
  by (simp add: load_and_resize_logo_def)

lemma overlay_logos_background_missing:
  "\<not> os_path_exists fs bg \<Longrightarrow>
     overlay_logos ip fs bg l r out sf = (Some (FileNotFoundError (msg_video_not_found bg)), fs, None)"
  by (simp add: overlay_logos_def)

lemma overlay_logos_cannot_open:
  "os_path_exists fs bg \<Longrightarrow> cv2_VideoCapture fs bg = None \<Longrightarrow>
     overlay_logos ip fs bg l r out sf = (Some (FileNotFoundError (msg_video_cannot_open bg)), fs, None)"
  by (simp add: overlay_logos_def)

lemma overlay_logos_left_fails:
  "os_path_exists fs bg \<Longrightarrow> cv2_VideoCapture fs bg = Some v \<Longrightarrow>
   load_and_resize_logo ip fs l (py_int (v_width v)) (py_int (v_height v)) sf = Inl e \<Longrightarrow>
     overlay_logos ip fs bg l r out sf = (Some e, fs, None)"
  by (simp add: overlay_logos_def)

lemma overlay_logos_right_fails:
  "os_path_exists fs bg \<Longrightarrow> cv2_VideoCapture fs bg = Some v \<Longrightarrow>
   load_and_resize_logo ip fs l (py_int (v_width v)) (py_int (v_height v)) sf = Inr l1 \<Longrightarrow>
   load_and_resize_logo ip fs r (py_int (v_width v)) (py_int (v_height v)) sf = Inl e \<Longrightarrow>
     overlay_logos ip fs bg l r out sf = (Some e, fs, None)"
  by (simp add: overlay_logos_def split: prod.splits)

text \<open>
  C4, as stated: the pipeline distinguishes error kinds by cause, the error for a missing
  background being distinct from the error for a background that cannot be opened (and
  likewise for a logo). The kind of a Python error is its class, and the class is the same:
  both failures raise \<^verbatim>\<open>FileNotFoundError\<close>.
\<close>

theorem not_found_and_cannot_open_share_class:
  "fst (overlay_logos nearest fs_demo ''missing.mp4'' ''left.png'' ''right.png'' ''out.mp4'' 2)
     = Some (FileNotFoundError (msg_video_not_found ''missing.mp4''))
   \<and> fst (overlay_logos nearest fs_demo ''corrupt.mp4'' ''left.png'' ''right.png'' ''out.mp4'' 2)
     = Some (FileNotFoundError (msg_video_cannot_open ''corrupt.mp4''))
   \<and> exc_class (FileNotFoundError (msg_video_not_found ''missing.mp4''))
     = exc_class (FileNotFoundError (msg_video_cannot_open ''corrupt.mp4''))"
  by code_simp

text \<open>
  C4, amended: the four failures raise the same class, \<^verbatim>\<open>FileNotFoundError\<close>, and are told
  apart by the message only: \<^verbatim>\<open>Video file '...' not found\<close> for a missing background,
  \<^verbatim>\<open>Cannot open video file '...'\<close> for a background that exists and does not open,
  \<^verbatim>\<open>Logo image '...' not found\<close> for a missing logo and
  \<^verbatim>\<open>Failed to load logo image from '...'.\<close> for a logo that exists and does not decode.
  The four messages are pairwise different, whatever the paths.
\<close>

theorem failures_differ_only_in_message:
  "(\<not> os_path_exists fs bg \<longrightarrow>
      fst (overlay_logos ip fs bg l r out sf) = Some (FileNotFoundError (msg_video_not_found bg)))
   \<and> (os_path_exists fs bg' \<and> cv2_VideoCapture fs bg' = None \<longrightarrow>
      fst (overlay_logos ip fs bg' l r out sf) = Some (FileNotFoundError (msg_video_cannot_open bg')))
   \<and> (\<not> os_path_exists fs p \<longrightarrow>
      load_and_resize_logo ip fs p fw fh sf = Inl (FileNotFoundError (msg_logo_not_found p)))
   \<and> (os_path_exists fs p' \<and> cv2_imread fs p' = None \<longrightarrow>
      load_and_resize_logo ip fs p' fw fh sf = Inl (FileNotFoundError (msg_logo_load_failed p')))
   \<and> msg_video_not_found a \<noteq> msg_video_cannot_open b
   \<and> msg_logo_not_found a \<noteq> msg_logo_load_failed b
   \<and> msg_video_not_found a \<noteq> msg_logo_not_found b
   \<and> msg_video_not_found a \<noteq> msg_logo_load_failed b
   \<and> msg_video_cannot_open a \<noteq> msg_logo_not_found b
   \<and> msg_video_cannot_open a \<noteq> msg_logo_load_failed b"
proof -
  have m: "msg_video_not_found a \<noteq> msg_video_cannot_open b"
    "msg_logo_not_found a \<noteq> msg_logo_load_failed b"
    "msg_video_not_found a \<noteq> msg_logo_not_found b"
    "msg_video_not_found a \<noteq> msg_logo_load_failed b"
    "msg_video_cannot_open a \<noteq> msg_logo_not_found b"
    "msg_video_cannot_open a \<noteq> msg_logo_load_failed b"
    by (simp_all add: msg_video_not_found_def msg_video_cannot_open_def
        msg_logo_not_found_def msg_logo_load_failed_def)
  show ?thesis
    using m
    by (simp add: overlay_logos_background_missing overlay_logos_cannot_open
        load_and_resize_logo_missing load_and_resize_logo_undecodable)
qed


theorem failures_differ_only_in_message_witness:
  "(\<not> os_path_exists fs_demo ''missing.mp4''
     \<and> fst (overlay_logos nearest fs_demo ''missing.mp4'' ''left.png'' ''right.png'' ''out.mp4'' 2)
         = Some (FileNotFoundError (msg_video_not_found ''missing.mp4'')))
   \<and> (os_path_exists fs_demo ''corrupt.mp4'' \<and> cv2_VideoCapture fs_demo ''corrupt.mp4'' = None
     \<and> fst (overlay_logos nearest fs_demo ''corrupt.mp4'' ''left.png'' ''right.png'' ''out.mp4'' 2)
         = Some (FileNotFoundError (msg_video_cannot_open ''corrupt.mp4'')))
   \<and> (\<not> os_path_exists fs_demo ''missing.png''
     \<and> load_and_resize_logo nearest fs_demo ''missing.png'' 8 4 2
         = Inl (FileNotFoundError (msg_logo_not_found ''missing.png'')))
   \<and> (os_path_exists fs_demo ''notes.txt'' \<and> cv2_imread fs_demo ''notes.txt'' = None
     \<and> load_and_resize_logo nearest fs_demo ''notes.txt'' 8 4 2
         = Inl (FileNotFoundError (msg_logo_load_failed ''notes.txt'')))"
proof -
  have h1: "\<not> os_path_exists fs_demo ''missing.mp4''"
    by code_simp
  have h2: "os_path_exists fs_demo ''corrupt.mp4'' \<and> cv2_VideoCapture fs_demo ''corrupt.mp4'' = None"
    by code_simp
  have h3: "\<not> os_path_exists fs_demo ''missing.png''"
    by code_simp
  have h4: "os_path_exists fs_demo ''notes.txt'' \<and> cv2_imread fs_demo ''notes.txt'' = None"
    by code_simp
  note t = failures_differ_only_in_message [where fs = fs_demo and bg = "''missing.mp4''" and bg' = "''corrupt.mp4''"
      and p = "''missing.png''" and p' = "''notes.txt''" and ip = nearest
      and l = "''left.png''" and r = "''right.png''" and out = "''out.mp4''" and sf = 2
      and fw = 8 and fh = 4]
  show ?thesis
    using h1 h2 h3 h4 t by blast
qed

text \<open>
  C6, as stated: if the background path or a logo path does not exist, \<^verbatim>\<open>overlay_logos\<close>
  raises a not-found error and creates no output. The error is not always a not-found
  error: the left logo is loaded and resized before the path of the right logo is looked
  at. With a right logo that does not exist and a left banner 8 wide and 1 high, in the box
  of 4 by 2 the height is \<open>int(4 / 8) = 0\<close> and \<^verbatim>\<open>cv2.resize\<close> raises \<^verbatim>\<open>cv2.error\<close>.
\<close>

theorem missing_right_logo_not_reported:
  "\<not> os_path_exists fs_demo ''missing.png''
   \<and> fst (overlay_logos nearest fs_demo ''bg.mp4'' ''banner.png'' ''missing.png'' ''out.mp4'' 2)
       = Some Cv2Error
   \<and> exc_class Cv2Error \<noteq> ''FileNotFoundError''"
  by code_simp

text \<open>
  C6, amended: if the background path, the left logo path or the right logo path does not
  exist, \<^verbatim>\<open>overlay_logos\<close> raises, leaves the file system as it was and opens no writer. The
  error is a \<^verbatim>\<open>FileNotFoundError\<close>, except when only the right logo is missing and loading
  the left logo raises \<^verbatim>\<open>ZeroDivisionError\<close> or \<^verbatim>\<open>cv2.error\<close> first, which is then the error
  raised.
\<close>

theorem missing_path_raises_and_writes_nothing:
  assumes "\<not> os_path_exists fs bg \<or> \<not> os_path_exists fs l \<or> \<not> os_path_exists fs r"
  shows "\<exists>e. overlay_logos ip fs bg l r out sf = (Some e, fs, None)
           \<and> ((\<exists>m. e = FileNotFoundError m)
               \<or> (\<exists>v. os_path_exists fs bg \<and> cv2_VideoCapture fs bg = Some v
                     \<and> os_path_exists fs l \<and> \<not> os_path_exists fs r
                     \<and> (e = ZeroDivisionError \<or> e = Cv2Error)
                     \<and> load_and_resize_logo ip fs l (py_int (v_width v)) (py_int (v_height v)) sf
                         = Inl e))"
proof (cases "os_path_exists fs bg")
  case False
  then show ?thesis
    by (simp add: overlay_logos_background_missing)
next
  case bg: True
  show ?thesis
  proof (cases "cv2_VideoCapture fs bg")
    case None
    with bg show ?thesis
      by (simp add: overlay_logos_cannot_open)
  next
    case (Some v)
    show ?thesis
    proof (cases "load_and_resize_logo ip fs l (py_int (v_width v)) (py_int (v_height v)) sf")
      case (Inl e)
      then have ov: "overlay_logos ip fs bg l r out sf = (Some e, fs, None)"
        using bg Some by (rule_tac overlay_logos_left_fails)
      from load_and_resize_logo_InlD [OF Inl] show ?thesis
        using ov bg Some Inl assms by auto
    next
      case (Inr l1)
      from load_and_resize_logo_InrD [OF Inr] have "os_path_exists fs l"
        by simp
      with assms bg have "\<not> os_path_exists fs r"
        by simp
      then have "load_and_resize_logo ip fs r (py_int (v_width v)) (py_int (v_height v)) sf
                   = Inl (FileNotFoundError (msg_logo_not_found r))"
        by (rule load_and_resize_logo_missing)
      then have "overlay_logos ip fs bg l r out sf
                   = (Some (FileNotFoundError (msg_logo_not_found r)), fs, None)"
        using bg Some Inr by (rule_tac overlay_logos_right_fails)
      then show ?thesis
        by simp
    qed
  qed
qed

theorem missing_path_raises_and_writes_nothing_witness:
  "\<not> os_path_exists fs_demo ''missing.png''
   \<and> overlay_logos nearest fs_demo ''bg.mp4'' ''left.png'' ''missing.png'' ''out.mp4'' 2
       = (Some (FileNotFoundError (msg_logo_not_found ''missing.png'')), fs_demo, None)"
proof -
  have h: "\<not> os_path_exists fs_demo ''missing.png''"
    by code_simp
  have f: "fst (overlay_logos nearest fs_demo ''bg.mp4'' ''left.png'' ''missing.png'' ''out.mp4'' 2)
      = Some (FileNotFoundError (msg_logo_not_found ''missing.png''))"
    by code_simp
  from missing_path_raises_and_writes_nothing [OF disjI2 [OF disjI2 [OF h]], of nearest
      "''bg.mp4''" "''left.png''" "''out.mp4''" 2] f h
  show ?thesis
    by auto
qed

text \<open>
  C10: whenever \<^verbatim>\<open>overlay_logos\<close> raises before both logos are loaded (the background is
  missing or does not open, a logo is missing or does not decode, or loading a logo raises
  for another reason), the file system is as it was: a file at the output path is still
  there and no directory was created, and no writer was opened.
\<close>

theorem failure_before_output_leaves_files:
  assumes "\<not> os_path_exists fs bg \<or> cv2_VideoCapture fs bg = None
           \<or> \<not> os_path_exists fs l \<or> cv2_imread fs l = None
           \<or> \<not> os_path_exists fs r \<or> cv2_imread fs r = None
           \<or> (\<exists>v e. cv2_VideoCapture fs bg = Some v
                 \<and> (load_and_resize_logo ip fs l (py_int (v_width v)) (py_int (v_height v)) sf = Inl e
                    \<or> load_and_resize_logo ip fs r (py_int (v_width v)) (py_int (v_height v)) sf = Inl e))"
  shows "\<exists>e. overlay_logos ip fs bg l r out sf = (Some e, fs, None)"
proof (cases "os_path_exists fs bg")
  case False
  then show ?thesis
    by (simp add: overlay_logos_background_missing)
next
  case bg: True
  show ?thesis
  proof (cases "cv2_VideoCapture fs bg")
    case None
    with bg show ?thesis
      by (simp add: overlay_logos_cannot_open)
  next
    case (Some v)
    let ?L = "load_and_resize_logo ip fs l (py_int (v_width v)) (py_int (v_height v)) sf"
    let ?R = "load_and_resize_logo ip fs r (py_int (v_width v)) (py_int (v_height v)) sf"
    show ?thesis
    proof (cases ?L)
      case (Inl e)
      then show ?thesis
        using bg Some overlay_logos_left_fails by blast
    next
      case (Inr l1)
      show ?thesis
      proof (cases ?R)
        case (Inl e)
        then show ?thesis
          using bg Some Inr overlay_logos_right_fails by blast
      next
        case r: (Inr l2)
        from load_and_resize_logo_InrD [OF Inr] load_and_resize_logo_InrD [OF r]
        have "os_path_exists fs l" "cv2_imread fs l \<noteq> None"
          "os_path_exists fs r" "cv2_imread fs r \<noteq> None"
          by auto
        with assms bg Some Inr r show ?thesis
          by auto
      qed
    qed
  qed
qed

theorem failure_before_output_leaves_files_witness:
  "os_path_exists fs_demo ''stale.mp4''
   \<and> cv2_imread fs_demo ''notes.txt'' = None
   \<and> (\<exists>e. overlay_logos nearest fs_demo ''bg.mp4'' ''left.png'' ''notes.txt'' ''stale.mp4'' 2
           = (Some e, fs_demo, None))"
proof -
  have h: "cv2_imread fs_demo ''notes.txt'' = None"
    by code_simp
  have s: "os_path_exists fs_demo ''stale.mp4''"
    by code_simp
  have "\<exists>e. overlay_logos nearest fs_demo ''bg.mp4'' ''left.png'' ''notes.txt'' ''stale.mp4'' 2
           = (Some e, fs_demo, None)"
    by (rule failure_before_output_leaves_files) (simp add: h)
  with h s show ?thesis
    by blast
qed


section \<open>The output location\<close>

lemma os_mkdir_InrD:
  "os_mkdir fs name = Inr fs' \<Longrightarrow>
     fs' = fs(name \<mapsto> Dir_node) \<and> \<not> os_path_exists fs name \<and> name \<noteq> [] \<and> \<not> is_root name"
  by (auto simp add: os_mkdir_def os_path_exists_def lookup_def
      split: if_splits option.splits node.splits)

lemma lookup_upd_other: "p \<noteq> q \<Longrightarrow> lookup (fs(q := x)) p = lookup fs p"
  by (simp add: lookup_def)

lemma lookup_mkdir_same:
  "name \<noteq> [] \<Longrightarrow> \<not> is_root name \<Longrightarrow> lookup (fs(name \<mapsto> Dir_node)) name = Some Dir_node"
  by (simp add: lookup_def)

lemma os_makedirs_created:
  assumes "os_makedirs fs name = (None, fs')"
  shows "lookup fs' name = Some Dir_node"
proof -
  from assms obtain fs1 where "os_mkdir fs1 name = Inr fs'"
    by (subst (asm) os_makedirs.simps)
      (auto split: if_splits prod.splits option.splits sum.splits)
  from os_mkdir_InrD [OF this] show ?thesis
    by (simp add: lookup_mkdir_same)
qed


lemma os_makedirs_leaf:
  "\<not> (os_path_dirname name \<noteq> [] \<and> os_path_dirname name \<noteq> name
       \<and> \<not> os_path_exists fs (os_path_dirname name)) \<Longrightarrow>
   os_makedirs fs name
     = (case os_mkdir fs name of Inl e' \<Rightarrow> (Some e', fs) | Inr fs2 \<Rightarrow> (None, fs2))"
  by (subst os_makedirs.simps) auto

lemma os_makedirs_rec:
  "os_path_dirname name \<noteq> [] \<and> os_path_dirname name \<noteq> name
       \<and> \<not> os_path_exists fs (os_path_dirname name) \<Longrightarrow>
   os_makedirs fs (os_path_dirname name) = (e1, fs1) \<Longrightarrow>
   os_makedirs fs name
     = (if e1 = None \<or> e1 = Some FileExistsError
        then (case os_mkdir fs1 name of Inl e' \<Rightarrow> (Some e', fs1) | Inr fs2 \<Rightarrow> (None, fs2))
        else (e1, fs1))"
  by (subst os_makedirs.simps) (simp split: option.splits)

lemma mkdir_step_cases:
  assumes "(case os_mkdir fs1 name of Inl e' \<Rightarrow> (Some e', fs1) | Inr fs2 \<Rightarrow> (None, fs2)) = (e, fs')"
  shows "fs' = fs1 \<and> e \<noteq> None \<or> os_mkdir fs1 name = Inr fs' \<and> e = None"
  using assms by (cases "os_mkdir fs1 name") auto



lemma os_path_dirname_take: "\<exists>n. os_path_dirname p = take n p"
proof -
  define h where "h = rev (dropWhile (\<lambda>c. c \<noteq> CHR ''/'') (rev p))"
  have h: "h = take (length h) p"
    unfolding h_def by (simp add: dropWhile_eq_drop rev_drop)
  have r: "rstrip_sep h = take (length (rstrip_sep h)) h"
    unfolding rstrip_sep_def by (simp add: dropWhile_eq_drop rev_drop)
  have d: "os_path_dirname p = (if h \<noteq> [] \<and> \<not> is_root h then rstrip_sep h else h)"
    unfolding h_def by (simp add: os_path_dirname_def os_path_split_def Let_def)
  show ?thesis
  proof (cases "h \<noteq> [] \<and> \<not> is_root h")
    case True
    then have "os_path_dirname p = rstrip_sep h"
      using d by simp
    then show ?thesis
      using h r by (metis take_take)
  next
    case False
    then have "os_path_dirname p = h"
      using d by auto
    then show ?thesis
      using h by metis
  qed
qed

lemma os_path_dirname_fixpoint:
  assumes "os_path_dirname p = p"
  shows "p = [] \<or> is_root p"
proof -
  define h where "h = rev (dropWhile (\<lambda>c. c \<noteq> CHR ''/'') (rev p))"
  have d: "os_path_dirname p = (if h \<noteq> [] \<and> \<not> is_root h then rstrip_sep h else h)"
    unfolding h_def by (simp add: os_path_dirname_def os_path_split_def Let_def)
  have hl: "length h \<le> length p"
    unfolding h_def by (simp add: dropWhile_eq_drop)
  show ?thesis
  proof (cases "h \<noteq> [] \<and> \<not> is_root h")
    case False
    with d assms show ?thesis
      by auto
  next
    case True
    then have "dropWhile (\<lambda>c. c \<noteq> CHR ''/'') (rev p) \<noteq> []"
      by (simp add: h_def)
    then have "hd (dropWhile (\<lambda>c. c \<noteq> CHR ''/'') (rev p)) = CHR ''/''"
      using hd_dropWhile [of "\<lambda>c. c \<noteq> CHR ''/''" "rev p"] by simp
    then have "hd (rev h) = CHR ''/''"
      by (simp add: h_def)
    moreover have "rev h \<noteq> []"
      using True by simp
    ultimately have "length (dropWhile (\<lambda>c. c = CHR ''/'') (rev h)) < length (rev h)"
      by (cases "rev h") (auto simp add: less_Suc_eq_le length_dropWhile_le)
    then have "length (rstrip_sep h) < length h"
      by (simp add: rstrip_sep_def)
    with d True assms hl show ?thesis
      by auto
  qed
qed

lemma prepare_output_post:
  assumes "prepare_output fs out = (None, fs')"
  shows "(os_path_dirname out = [] \<or> os_path_exists fs' (os_path_dirname out))
           \<and> \<not> os_path_exists fs' out"
proof -
  let ?d = "os_path_dirname out"
  obtain fs1 where
    s1: "(if ?d \<noteq> [] \<and> \<not> os_path_exists fs ?d then os_makedirs fs ?d else (None, fs)) = (None, fs1)"
    and s2: "(if os_path_exists fs1 out
              then (case os_remove fs1 out of Inl e \<Rightarrow> (Some e, fs1) | Inr fs2 \<Rightarrow> (None, fs2))
              else (None, fs1)) = (None, fs')"
    using assms unfolding prepare_output_def
    by (auto split: prod.splits option.splits)
  have d1: "?d = [] \<or> os_path_exists fs1 ?d"
  proof (cases "?d \<noteq> [] \<and> \<not> os_path_exists fs ?d")
    case True
    with s1 have "os_makedirs fs ?d = (None, fs1)"
      by simp
    from os_makedirs_created [OF this] show ?thesis
      by (simp add: os_path_exists_def)
  next
    case False
    with s1 show ?thesis
      by auto
  qed
  show ?thesis
  proof (cases "os_path_exists fs1 out")
    case False
    with s2 d1 show ?thesis
      by auto
  next
    case True
    with s2 obtain f where f: "lookup fs1 out = Some (File_node f)" and fs': "fs' = fs1(out := None)"
      by (auto simp add: os_remove_def split: option.splits node.splits sum.splits)
    from f have nr: "out \<noteq> []" "\<not> is_root out"
      by (auto simp add: lookup_def split: if_splits)
    then have "?d \<noteq> out"
      using os_path_dirname_fixpoint [of out] by auto
    then have "lookup fs' ?d = lookup fs1 ?d"
      using fs' by (simp add: lookup_upd_other)
    moreover have "lookup fs' out = None"
      using fs' nr by (simp add: lookup_def)
    ultimately show ?thesis
      using d1 by (auto simp add: os_path_exists_def)
  qed
qed

lemma prepare_output_noop:
  "os_path_dirname out = [] \<or> os_path_exists fs (os_path_dirname out) \<Longrightarrow>
   \<not> os_path_exists fs out \<Longrightarrow> prepare_output fs out = (None, fs)"
  by (auto simp add: prepare_output_def)



lemma length_os_path_dirname: "length (os_path_dirname p) \<le> length p"
proof -
  define h where "h = rev (dropWhile (\<lambda>c. c \<noteq> CHR ''/'') (rev p))"
  have d: "os_path_dirname p = (if h \<noteq> [] \<and> \<not> is_root h then rstrip_sep h else h)"
    unfolding h_def by (simp add: os_path_dirname_def os_path_split_def Let_def)
  have hl: "length h \<le> length p"
    unfolding h_def by (simp add: dropWhile_eq_drop)
  have "length (rstrip_sep h) \<le> length h"
    by (simp add: rstrip_sep_def dropWhile_eq_drop)
  with d hl show ?thesis
    by auto
qed

lemma os_makedirs_longer:
  "os_makedirs fs name = (e, fs') \<Longrightarrow> length name < length p \<Longrightarrow> fs' p = fs p"
proof (induction fs name arbitrary: e fs' rule: os_makedirs.induct)
  case (1 fs name)
  have step: "fs2 p = fs1 p" if "os_mkdir fs1 name = Inr fs2" for fs1 fs2
    using os_mkdir_InrD [OF that] "1.prems"(2) by auto
  show ?case
  proof (cases "os_path_dirname name \<noteq> [] \<and> os_path_dirname name \<noteq> name
         \<and> \<not> os_path_exists fs (os_path_dirname name)")
    case False
    from "1.prems"(1) os_makedirs_leaf [OF False]
    have "(case os_mkdir fs name of Inl e' \<Rightarrow> (Some e', fs) | Inr fs2 \<Rightarrow> (None, fs2)) = (e, fs')"
      by simp
    from mkdir_step_cases [OF this] show ?thesis
      using step [of fs fs'] by auto
  next
    case True
    obtain e1 fs1 where r: "os_makedirs fs (os_path_dirname name) = (e1, fs1)"
      by (cases "os_makedirs fs (os_path_dirname name)")
    have "length (os_path_dirname name) < length p"
      using length_os_path_dirname [of name] "1.prems"(2) by simp
    from "1.IH" [OF True r this] have l1: "fs1 p = fs p" .
    from "1.prems"(1) os_makedirs_rec [OF True r]
    have c: "(if e1 = None \<or> e1 = Some FileExistsError
        then (case os_mkdir fs1 name of Inl e' \<Rightarrow> (Some e', fs1) | Inr fs2 \<Rightarrow> (None, fs2))
        else (e1, fs1)) = (e, fs')"
      by simp
    show ?thesis
    proof (cases "e1 = None \<or> e1 = Some FileExistsError")
      case False
      with c l1 show ?thesis
        by simp
    next
      case True
      with c have "(case os_mkdir fs1 name of Inl e' \<Rightarrow> (Some e', fs1) | Inr fs2 \<Rightarrow> (None, fs2)) = (e, fs')"
        by simp
      from mkdir_step_cases [OF this] show ?thesis
        using step [of fs1 fs'] l1 by auto
    qed
  qed
qed

lemma prepare_output_created:
  assumes "prepare_output fs out = (None, fs')"
    and "os_path_dirname out \<noteq> []" and "\<not> os_path_exists fs (os_path_dirname out)"
  shows "lookup fs' (os_path_dirname out) = Some Dir_node"
proof -
  let ?d = "os_path_dirname out"
  obtain fs1 where s1: "os_makedirs fs ?d = (None, fs1)"
    and s2: "(if os_path_exists fs1 out
              then (case os_remove fs1 out of Inl e \<Rightarrow> (Some e, fs1) | Inr fs2 \<Rightarrow> (None, fs2))
              else (None, fs1)) = (None, fs')"
    using assms unfolding prepare_output_def
    by (auto split: prod.splits option.splits)
  from os_makedirs_created [OF s1] have d1: "lookup fs1 ?d = Some Dir_node" .
  show ?thesis
  proof (cases "os_path_exists fs1 out")
    case False
    with s2 d1 show ?thesis
      by auto
  next
    case True
    with s2 obtain f where f: "lookup fs1 out = Some (File_node f)" and fs': "fs' = fs1(out := None)"
      by (auto simp add: os_remove_def split: option.splits node.splits sum.splits)
    from f d1 have "?d \<noteq> out"
      by auto
    then show ?thesis
      using fs' d1 by (simp add: lookup_upd_other)
  qed
qed

lemma prepare_output_deletes:
  assumes "os_path_dirname out = [] \<or> os_path_exists fs (os_path_dirname out)"
    and "lookup fs out = Some (File_node f)"
  shows "prepare_output fs out = (None, fs(out := None))"
  using assms by (auto simp add: prepare_output_def os_remove_def os_path_exists_def)

lemma prepare_output_skips_remove:
  assumes "\<not> os_path_exists fs out"
  shows "prepare_output fs out
           = (if os_path_dirname out \<noteq> [] \<and> \<not> os_path_exists fs (os_path_dirname out)
              then os_makedirs fs (os_path_dirname out) else (None, fs))"
proof (cases "os_path_dirname out \<noteq> [] \<and> \<not> os_path_exists fs (os_path_dirname out)")
  case False
  with assms show ?thesis
    by (auto simp add: prepare_output_def)
next
  case True
  let ?d = "os_path_dirname out"
  obtain e1 fs1 where r: "os_makedirs fs ?d = (e1, fs1)"
    by (cases "os_makedirs fs ?d")
  from assms have nr: "\<not> is_root out"
    by (auto simp add: os_path_exists_def lookup_def is_root_def split: if_splits)
  have "?d \<noteq> out"
    using os_path_dirname_fixpoint [of out] True nr by auto
  moreover obtain n where "?d = take n out"
    using os_path_dirname_take [of out] by blast
  ultimately have "length ?d < length out"
    by (cases "n < length out") auto
  from os_makedirs_longer [OF r this] have "fs1 out = fs out" .
  with assms have "\<not> os_path_exists fs1 out"
    by (auto simp add: os_path_exists_def lookup_def split: if_splits)
  with True r show ?thesis
    by (cases e1) (simp_all add: prepare_output_def)
qed

lemma overlay_logos_loaded:
  assumes "os_path_exists fs bg" and "cv2_VideoCapture fs bg = Some v"
    and "load_and_resize_logo ip fs l (py_int (v_width v)) (py_int (v_height v)) sf
           = Inr (logo1, w1, h1)"
    and "load_and_resize_logo ip fs r (py_int (v_width v)) (py_int (v_height v)) sf
           = Inr (logo2, w2, h2)"
    and "prepare_output fs out = (e, fs1)"
  shows "overlay_logos ip fs bg l r out sf =
           (case e of
              Some x \<Rightarrow> (Some x, fs1, None)
            | None \<Rightarrow>
                (case process_video fs1 bg logo1 w1 h1 logo2 w2 h2
                        (imageio_get_writer out (v_fps v))
                        (py_int (v_width v)) (py_int (v_height v)) of
                   (Some x, wr) \<Rightarrow> (Some x, fs1, Some wr)
                 | (None, wr) \<Rightarrow> (None, fs1, Some (writer_close wr))))"
  using assms by (simp add: overlay_logos_def split: option.splits)

lemma overlay_logos_writerD:
  assumes "overlay_logos ip fs bg l r out sf = (e, fs', Some wr)"
  shows "prepare_output fs out = (None, fs')"
proof (cases "os_path_exists fs bg")
  case False
  with assms show ?thesis
    by (simp add: overlay_logos_background_missing)
next
  case bg: True
  show ?thesis
  proof (cases "cv2_VideoCapture fs bg")
    case None
    with assms bg show ?thesis
      by (simp add: overlay_logos_cannot_open)
  next
    case (Some v)
    let ?L = "load_and_resize_logo ip fs l (py_int (v_width v)) (py_int (v_height v)) sf"
    let ?R = "load_and_resize_logo ip fs r (py_int (v_width v)) (py_int (v_height v)) sf"
    show ?thesis
    proof (cases ?L)
      case (Inl x)
      from overlay_logos_left_fails [OF bg Some Inl] assms show ?thesis
        by simp
    next
      case l1: (Inr l1)
      show ?thesis
      proof (cases ?R)
        case (Inl x)
        from overlay_logos_right_fails [OF bg Some l1 Inl] assms show ?thesis
          by simp
      next
        case l2: (Inr l2)
        obtain logo1 w1 h1 where v1: "l1 = (logo1, w1, h1)"
          by (cases l1) auto
        obtain logo2 w2 h2 where v2: "l2 = (logo2, w2, h2)"
          by (cases l2) auto
        obtain e1 fs1 where p: "prepare_output fs out = (e1, fs1)"
          by (cases "prepare_output fs out")
        obtain e2 wr2 where q: "process_video fs1 bg logo1 w1 h1 logo2 w2 h2
                        (imageio_get_writer out (v_fps v))
                        (py_int (v_width v)) (py_int (v_height v)) = (e2, wr2)"
          by (cases "process_video fs1 bg logo1 w1 h1 logo2 w2 h2
                        (imageio_get_writer out (v_fps v))
                        (py_int (v_width v)) (py_int (v_height v))")
        from overlay_logos_loaded [OF bg Some l1 [unfolded v1] l2 [unfolded v2] p] assms q p
        show ?thesis
          by (cases e1; cases e2) simp_all
      qed
    qed
  qed
qed


lemma os_path_dirname_shorter:
  "os_path_dirname name \<noteq> name \<Longrightarrow> length (os_path_dirname name) < length name"
proof -
  assume a: "os_path_dirname name \<noteq> name"
  obtain n where n: "os_path_dirname name = take n name"
    using os_path_dirname_take [of name] by blast
  with a show ?thesis
    by (cases "n < length name") auto
qed

lemma ancestors_shorter: "a \<in> set (ancestors name) \<Longrightarrow> length a < length name"
proof (induction name rule: ancestors.induct)
  case (1 name)
  show ?case
  proof (cases "os_path_dirname name \<noteq> [] \<and> os_path_dirname name \<noteq> name")
    case False
    with "1.prems" show ?thesis
      by (subst (asm) ancestors.simps) simp
  next
    case True
    then have l: "length (os_path_dirname name) < length name"
      by (simp add: os_path_dirname_shorter)
    from "1.prems" True have "a = os_path_dirname name \<or> a \<in> set (ancestors (os_path_dirname name))"
      by (subst (asm) ancestors.simps) simp
    then show ?thesis
      using "1.IH" [OF True] l by auto
  qed
qed

lemma not_exists_not_root: "\<not> os_path_exists fs p \<Longrightarrow> \<not> is_root p"
  by (auto simp add: os_path_exists_def lookup_def is_root_def split: if_splits)

lemma os_mkdir_succeeds:
  assumes "name \<noteq> []" and "\<not> os_path_exists fs name"
    and "os_path_dirname name = [] \<or> lookup fs (os_path_dirname name) = Some Dir_node"
  shows "os_mkdir fs name = Inr (fs(name \<mapsto> Dir_node))"
  using assms by (auto simp add: os_mkdir_def)

lemma os_makedirs_creates:
  "name \<noteq> [] \<Longrightarrow> \<not> os_path_exists fs name \<Longrightarrow> nearest_ancestor_is_dir fs name \<Longrightarrow>
     \<exists>fs'. os_makedirs fs name = (None, fs')
       \<and> lookup fs' name = Some Dir_node
       \<and> (\<forall>a\<in>set (missing_ancestors fs name). lookup fs' a = Some Dir_node)
       \<and> (\<forall>p. p \<noteq> name \<and> p \<notin> set (missing_ancestors fs name) \<longrightarrow> fs' p = fs p)"
proof (induction fs name rule: os_makedirs.induct)
  case (1 fs name)
  let ?d = "os_path_dirname name"
  have nr: "\<not> is_root name"
    using "1.prems"(2) by (rule not_exists_not_root)
  have dn: "?d \<noteq> name"
    using os_path_dirname_fixpoint [of name] nr "1.prems"(1) by auto
  show ?case
  proof (cases "?d \<noteq> [] \<and> ?d \<noteq> name \<and> \<not> os_path_exists fs ?d")
    case False
    have m: "os_path_dirname name = [] \<or> lookup fs ?d = Some Dir_node"
    proof (cases "?d = []")
      case True
      then show ?thesis
        by simp
    next
      case d: False
      with False dn have ex: "os_path_exists fs ?d"
        by simp
      have "ancestors name = ?d # ancestors ?d"
        using d dn by (subst ancestors.simps) simp
      with ex "1.prems"(3) show ?thesis
        by (simp add: nearest_ancestor_is_dir_def)
    qed
    have mi: "missing_ancestors fs name = []"
    proof (cases "?d = []")
      case True
      then have "ancestors name = []"
        by (subst ancestors.simps) simp
      then show ?thesis
        by (simp add: missing_ancestors_def)
    next
      case d: False
      with False dn have ex: "os_path_exists fs ?d"
        by simp
      have "ancestors name = ?d # ancestors ?d"
        using d dn by (subst ancestors.simps) simp
      with ex show ?thesis
        by (simp add: missing_ancestors_def)
    qed
    have "os_makedirs fs name = (None, fs(name \<mapsto> Dir_node))"
      using os_makedirs_leaf [OF False] os_mkdir_succeeds [OF "1.prems"(1,2) m] by simp
    then show ?thesis
      using mi "1.prems"(1) nr by (simp add: lookup_mkdir_same)
  next
    case True
    then have d: "?d \<noteq> []" and nex: "\<not> os_path_exists fs ?d"
      by simp_all
    have an: "ancestors name = ?d # ancestors ?d"
      using d dn by (subst ancestors.simps) simp
    have mi: "missing_ancestors fs name = ?d # missing_ancestors fs ?d"
      using an nex by (simp add: missing_ancestors_def)
    have ok: "nearest_ancestor_is_dir fs ?d"
      using "1.prems"(3) an nex by (simp add: nearest_ancestor_is_dir_def)
    from "1.IH" [OF True d nex ok] obtain fs1 where
      r: "os_makedirs fs ?d = (None, fs1)"
      and c1: "lookup fs1 ?d = Some Dir_node"
      and c2: "\<forall>a\<in>set (missing_ancestors fs ?d). lookup fs1 a = Some Dir_node"
      and c3: "\<forall>p. p \<noteq> ?d \<and> p \<notin> set (missing_ancestors fs ?d) \<longrightarrow> fs1 p = fs p"
      by blast
    have ls: "length ?d < length name"
      using dn by (rule os_path_dirname_shorter)
    have nm: "name \<notin> set (missing_ancestors fs ?d)"
    proof
      assume "name \<in> set (missing_ancestors fs ?d)"
      then have "name \<in> set (ancestors ?d)"
        unfolding missing_ancestors_def by (rule set_takeWhileD [THEN conjunct1])
      from ancestors_shorter [OF this] ls show False
        by simp
    qed
    have "fs1 name = fs name"
      using c3 dn nm by simp
    then have nex1: "\<not> os_path_exists fs1 name"
      using "1.prems"(2) by (auto simp add: os_path_exists_def lookup_def split: if_splits)
    have mk: "os_mkdir fs1 name = Inr (fs1(name \<mapsto> Dir_node))"
      using os_mkdir_succeeds [OF "1.prems"(1) nex1] c1 by simp
    have res: "os_makedirs fs name = (None, fs1(name \<mapsto> Dir_node))"
      using os_makedirs_rec [OF True r] mk by simp
    have k: "lookup (fs1(name \<mapsto> Dir_node)) a = lookup fs1 a" if "a \<noteq> name" for a
      using that by (simp add: lookup_upd_other)
    have a1: "lookup (fs1(name \<mapsto> Dir_node)) name = Some Dir_node"
      using "1.prems"(1) nr by (simp add: lookup_mkdir_same)
    have a2: "\<forall>a\<in>set (missing_ancestors fs name). lookup (fs1(name \<mapsto> Dir_node)) a = Some Dir_node"
    proof
      fix a assume a: "a \<in> set (missing_ancestors fs name)"
      then have "a = ?d \<or> a \<in> set (missing_ancestors fs ?d)"
        using mi by simp
      moreover have "a \<noteq> name"
        using a mi dn nm by auto
      ultimately show "lookup (fs1(name \<mapsto> Dir_node)) a = Some Dir_node"
        using c1 c2 k by auto
    qed
    have a3: "\<forall>p. p \<noteq> name \<and> p \<notin> set (missing_ancestors fs name)
                 \<longrightarrow> (fs1(name \<mapsto> Dir_node)) p = fs p"
      using c3 mi by simp
    show ?thesis
      using res a1 a2 a3 by blast
  qed
qed


lemma prepare_output_creates:
  assumes d: "os_path_dirname out \<noteq> []"
    and nex: "\<not> os_path_exists fs (os_path_dirname out)"
    and ok: "nearest_ancestor_is_dir fs (os_path_dirname out)"
    and nd: "lookup fs out \<noteq> Some Dir_node"
  shows "\<exists>fs'. prepare_output fs out = (None, fs')
           \<and> lookup fs' (os_path_dirname out) = Some Dir_node
           \<and> (\<forall>a\<in>set (missing_ancestors fs (os_path_dirname out)). lookup fs' a = Some Dir_node)
           \<and> \<not> os_path_exists fs' out"
proof -
  let ?d = "os_path_dirname out"
  from os_makedirs_creates [OF d nex ok] obtain fs1 where
    r: "os_makedirs fs ?d = (None, fs1)"
    and c1: "lookup fs1 ?d = Some Dir_node"
    and c2: "\<forall>a\<in>set (missing_ancestors fs ?d). lookup fs1 a = Some Dir_node"
    and c3: "\<forall>p. p \<noteq> ?d \<and> p \<notin> set (missing_ancestors fs ?d) \<longrightarrow> fs1 p = fs p"
    by blast
  have nr: "\<not> is_root out"
    using nd by (auto simp add: lookup_def is_root_def split: if_splits)
  have ne: "out \<noteq> []"
    using d by (auto simp add: os_path_dirname_def os_path_split_def Let_def)
  have dn: "?d \<noteq> out"
    using os_path_dirname_fixpoint [of out] nr ne by auto
  then have ls: "length ?d < length out"
    by (rule os_path_dirname_shorter)
  have nm: "a \<noteq> out" if "a \<in> set (missing_ancestors fs ?d)" for a
  proof -
    from that have "a \<in> set (ancestors ?d)"
      unfolding missing_ancestors_def by (rule set_takeWhileD [THEN conjunct1])
    from ancestors_shorter [OF this] ls show ?thesis
      by auto
  qed
  have "out \<notin> set (missing_ancestors fs ?d)"
    using nm by blast
  then have "fs1 out = fs out"
    using c3 dn by metis
  then have lo: "lookup fs1 out = lookup fs out"
    by (simp add: lookup_def)
  have p1: "prepare_output fs out =
              (if os_path_exists fs1 out
               then (case os_remove fs1 out of Inl e \<Rightarrow> (Some e, fs1) | Inr fs2 \<Rightarrow> (None, fs2))
               else (None, fs1))"
    using d nex r by (simp add: prepare_output_def)
  show ?thesis
  proof (cases "lookup fs out")
    case None
    with lo have "\<not> os_path_exists fs1 out"
      by (simp add: os_path_exists_def)
    with p1 c1 c2 show ?thesis
      by simp
  next
    case (Some n)
    with nd obtain f where f: "lookup fs1 out = Some (File_node f)"
      using lo by (cases n) auto
    then have "prepare_output fs out = (None, fs1(out := None))"
      using p1 by (simp add: os_remove_def os_path_exists_def)
    moreover have "lookup (fs1(out := None)) ?d = Some Dir_node"
      using c1 dn by (simp add: lookup_upd_other)
    moreover have "\<forall>a\<in>set (missing_ancestors fs ?d). lookup (fs1(out := None)) a = Some Dir_node"
      using c2 nm by (simp add: lookup_upd_other)
    moreover have "\<not> os_path_exists (fs1(out := None)) out"
      using ne nr by (simp add: os_path_exists_def lookup_def)
    ultimately show ?thesis
      by blast
  qed
qed

text \<open>
  C9, as stated: before the writer is opened the output directory exists. This fails when a
  regular file lies at the path of the output directory: for the output path
  \<^verbatim>\<open>notes.txt/o.mp4\<close> the test of line 113 finds that \<^verbatim>\<open>notes.txt\<close> exists, no directory is
  created, nothing is raised and the writer is opened, with a regular file where the
  output directory should be.
\<close>

theorem writer_opened_below_a_regular_file:
  "os_path_dirname ''notes.txt/o.mp4'' = ''notes.txt''
   \<and> fst (overlay_logos nearest fs_demo ''bg.mp4'' ''left.png'' ''right.png'' ''notes.txt/o.mp4'' 2)
       = None
   \<and> snd (snd (overlay_logos nearest fs_demo ''bg.mp4'' ''left.png'' ''right.png''
         ''notes.txt/o.mp4'' 2)) \<noteq> None
   \<and> lookup (fst (snd (overlay_logos nearest fs_demo ''bg.mp4'' ''left.png'' ''right.png''
         ''notes.txt/o.mp4'' 2))) ''notes.txt'' = Some (File_node (Decoded None None))"
  by code_simp

text \<open>
  C9, amended: a writer is opened only after lines 112 to 117 have run without an
  exception, and then something exists at the path of the output directory in the sense of
  \<^verbatim>\<open>os.path.exists\<close> (or the output path has no directory part) and nothing exists at the
  output path. If both already hold, the two steps change nothing and raise nothing. When
  nothing exists at the path of the output directory and its nearest existing ancestor, if
  any, is a directory, the two steps raise nothing and leave the output directory and every
  missing ancestor of it as directories. With the directory in place a regular file at the
  output path is deleted and nothing else changes; with nothing at the output path the
  deletion is skipped.
\<close>

theorem output_location_prepared:
  "(overlay_logos ip fs bg l r out sf = (e, fs', Some wr) \<longrightarrow>
      prepare_output fs out = (None, fs')
      \<and> (os_path_dirname out = [] \<or> os_path_exists fs' (os_path_dirname out))
      \<and> \<not> os_path_exists fs' out)
   \<and> ((os_path_dirname outa = [] \<or> os_path_exists fsa (os_path_dirname outa))
        \<and> \<not> os_path_exists fsa outa \<longrightarrow>
      prepare_output fsa outa = (None, fsa))
   \<and> (os_path_dirname outb \<noteq> [] \<and> \<not> os_path_exists fsb (os_path_dirname outb)
        \<and> nearest_ancestor_is_dir fsb (os_path_dirname outb)
        \<and> lookup fsb outb \<noteq> Some Dir_node \<longrightarrow>
      (\<exists>fsb'. prepare_output fsb outb = (None, fsb')
         \<and> lookup fsb' (os_path_dirname outb) = Some Dir_node
         \<and> (\<forall>a\<in>set (missing_ancestors fsb (os_path_dirname outb)).
               lookup fsb' a = Some Dir_node)
         \<and> \<not> os_path_exists fsb' outb))
   \<and> ((os_path_dirname outc = [] \<or> os_path_exists fsc (os_path_dirname outc))
        \<and> lookup fsc outc = Some (File_node f) \<longrightarrow>
      prepare_output fsc outc = (None, fsc(outc := None)))
   \<and> (\<not> os_path_exists fsd outd \<longrightarrow>
      prepare_output fsd outd
        = (if os_path_dirname outd \<noteq> [] \<and> \<not> os_path_exists fsd (os_path_dirname outd)
           then os_makedirs fsd (os_path_dirname outd) else (None, fsd)))"
proof (intro conjI impI)
  assume a: "overlay_logos ip fs bg l r out sf = (e, fs', Some wr)"
  from overlay_logos_writerD [OF a] show p: "prepare_output fs out = (None, fs')" .
  from prepare_output_post [OF p]
  show "os_path_dirname out = [] \<or> os_path_exists fs' (os_path_dirname out)"
    and "\<not> os_path_exists fs' out"
    by simp_all
next
  assume "(os_path_dirname outa = [] \<or> os_path_exists fsa (os_path_dirname outa))
        \<and> \<not> os_path_exists fsa outa"
  then show "prepare_output fsa outa = (None, fsa)"
    using prepare_output_noop [of outa fsa] by blast
next
  assume "os_path_dirname outb \<noteq> [] \<and> \<not> os_path_exists fsb (os_path_dirname outb)
        \<and> nearest_ancestor_is_dir fsb (os_path_dirname outb)
        \<and> lookup fsb outb \<noteq> Some Dir_node"
  then show "\<exists>fsb'. prepare_output fsb outb = (None, fsb')
         \<and> lookup fsb' (os_path_dirname outb) = Some Dir_node
         \<and> (\<forall>a\<in>set (missing_ancestors fsb (os_path_dirname outb)).
               lookup fsb' a = Some Dir_node)
         \<and> \<not> os_path_exists fsb' outb"
    using prepare_output_creates [of outb fsb] by blast
next
  assume "(os_path_dirname outc = [] \<or> os_path_exists fsc (os_path_dirname outc))
        \<and> lookup fsc outc = Some (File_node f)"
  then show "prepare_output fsc outc = (None, fsc(outc := None))"
    using prepare_output_deletes [of outc fsc f] by blast
next
  assume "\<not> os_path_exists fsd outd"
  then show "prepare_output fsd outd
        = (if os_path_dirname outd \<noteq> [] \<and> \<not> os_path_exists fsd (os_path_dirname outd)
           then os_makedirs fsd (os_path_dirname outd) else (None, fsd))"
    by (rule prepare_output_skips_remove)
qed

theorem output_location_prepared_witness:
  "(os_path_exists (fst (snd run_nested)) ''out/x''
      \<and> \<not> os_path_exists (fst (snd run_nested)) ''out/x/o.mp4'')
   \<and> prepare_output fs_demo ''out.mp4'' = (None, fs_demo)
   \<and> missing_ancestors fs_demo ''out/x'' = [''out'']
   \<and> (\<exists>fsb'. prepare_output fs_demo ''out/x/o.mp4'' = (None, fsb')
         \<and> lookup fsb' ''out/x'' = Some Dir_node
         \<and> lookup fsb' ''out'' = Some Dir_node
         \<and> \<not> os_path_exists fsb' ''out/x/o.mp4'')
   \<and> prepare_output fs_demo ''stale.mp4'' = (None, fs_demo(''stale.mp4'' := None))
   \<and> prepare_output fs_demo ''out/x/o.mp4'' = os_makedirs fs_demo ''out/x''"
proof -
  have d: "os_path_dirname ''out/x/o.mp4'' = ''out/x''" "os_path_dirname ''out.mp4'' = []"
    "os_path_dirname ''stale.mp4'' = []"
    by code_simp+
  have w: "snd (snd run_nested) \<noteq> None"
    unfolding run_nested_def by code_simp
  then have h1: "overlay_logos nearest fs_demo ''bg.mp4'' ''left.png'' ''right.png'' ''out/x/o.mp4'' 2
      = (fst run_nested, fst (snd run_nested), Some (the (snd (snd run_nested))))"
    unfolding run_nested_def by simp
  have h2: "\<not> os_path_exists fs_demo ''out.mp4''"
    by code_simp
  have h3: "\<not> os_path_exists fs_demo ''out/x''"
    by code_simp
  have h3a: "nearest_ancestor_is_dir fs_demo ''out/x''"
    by code_simp
  have h3b: "lookup fs_demo ''out/x/o.mp4'' \<noteq> Some Dir_node"
    by code_simp
  have h3c: "missing_ancestors fs_demo ''out/x'' = [''out'']"
    by code_simp
  have h4: "lookup fs_demo ''stale.mp4'' = Some (File_node (Decoded None None))"
    by code_simp
  have h5: "\<not> os_path_exists fs_demo ''out/x/o.mp4''"
    by code_simp
  note t = output_location_prepared [where fs = fs_demo and bg = "''bg.mp4''" and ip = nearest and l = "''left.png''"
      and r = "''right.png''" and out = "''out/x/o.mp4''" and sf = 2
      and e = "fst run_nested" and fs' = "fst (snd run_nested)"
      and wr = "the (snd (snd run_nested))"
      and fsa = fs_demo and outa = "''out.mp4''"
      and fsb = fs_demo and outb = "''out/x/o.mp4''"
      and fsc = fs_demo and outc = "''stale.mp4''" and f = "Decoded None None"
      and fsd = fs_demo and outd = "''out/x/o.mp4''"]
  show ?thesis
    using t h1 h2 h3 h3a h3b h3c h4 h5 unfolding d by auto
qed

section \<open>The frame stream\<close>






section \<open>Compositing\<close>

lemma is_array3_iff:
  "is_array3 a h w c \<longleftrightarrow>
     length a = h \<and> (\<forall>i<h. length (a ! i) = w \<and> (\<forall>j<w. length (a ! i ! j) = c))"
  by (auto simp add: is_array3_def list_all_length)

lemma is_array3_dim1: "is_array3 a h w c \<Longrightarrow> 0 < h \<Longrightarrow> dim1 a = w"
  by (cases a) (auto simp add: is_array3_def dim1_def)

lemma is_array3_dim2: "is_array3 a h w c \<Longrightarrow> 0 < h \<Longrightarrow> 0 < w \<Longrightarrow> dim2 a = c"
proof (cases a)
  case Nil
  then show "is_array3 a h w c \<Longrightarrow> 0 < h \<Longrightarrow> 0 < w \<Longrightarrow> dim2 a = c"
    by (simp add: is_array3_def)
next
  case (Cons r rs)
  then show "is_array3 a h w c \<Longrightarrow> 0 < h \<Longrightarrow> 0 < w \<Longrightarrow> dim2 a = c"
    by (cases r) (auto simp add: is_array3_def dim1_def dim2_def)
qed

lemma setitem_rect_InrD:
  assumes "setitem_rect frame ya yb xa xb val = Inr f'"
  shows "broadcastable (as3d val)
           (slice_bound yb (length frame) - slice_bound ya (length frame))
           (slice_bound xb (dim1 frame) - slice_bound xa (dim1 frame)) (dim2 frame)"
    and "length f' = length frame"
    and "\<And>i. i < length frame \<Longrightarrow>
           f' ! i =
             (if slice_bound ya (length frame) \<le> i \<and> i < slice_bound yb (length frame)
              then map (\<lambda>j.
                     if slice_bound xa (dim1 frame) \<le> j \<and> j < slice_bound xb (dim1 frame)
                     then map (\<lambda>k. as3d val
                                   ! bidx (length (as3d val)) (i - slice_bound ya (length frame))
                                   ! bidx (dim1 (as3d val)) (j - slice_bound xa (dim1 frame))
                                   ! bidx (dim2 (as3d val)) k) [0..<dim2 frame]
                     else frame ! i ! j) [0..<dim1 frame]
              else frame ! i)"
  using assms by (auto simp add: setitem_rect_def Let_def split: if_splits)

lemma setitem_rect_shape:
  assumes fr: "is_array3 frame h w c" and ok: "setitem_rect frame ya yb xa xb val = Inr f'"
  shows "is_array3 f' h w c"
proof -
  note d = setitem_rect_InrD [OF ok]
  from fr have len: "length frame = h"
    and row: "\<And>i. i < h \<Longrightarrow> length (frame ! i) = w"
    and px: "\<And>i j. i < h \<Longrightarrow> j < w \<Longrightarrow> length (frame ! i ! j) = c"
    by (auto simp add: is_array3_iff)
  have "length (f' ! i) = w \<and> (\<forall>j<w. length (f' ! i ! j) = c)" if i: "i < h" for i
  proof -
    from i have h: "0 < h"
      by simp
    have w: "dim1 frame = w"
      using fr h by (rule is_array3_dim1)
    have e: "f' ! i =
             (if slice_bound ya h \<le> i \<and> i < slice_bound yb h
              then map (\<lambda>j.
                     if slice_bound xa w \<le> j \<and> j < slice_bound xb w
                     then map (\<lambda>k. as3d val
                                   ! bidx (length (as3d val)) (i - slice_bound ya h)
                                   ! bidx (dim1 (as3d val)) (j - slice_bound xa w)
                                   ! bidx (dim2 (as3d val)) k) [0..<dim2 frame]
                     else frame ! i ! j) [0..<w]
              else frame ! i)"
      using d(3) [of i] i len w by simp
    show ?thesis
    proof (intro conjI allI impI)
      show "length (f' ! i) = w"
        using e row [OF i] by (simp split: if_splits)
    next
      fix j assume j: "j < w"
      then have "dim2 frame = c"
        using is_array3_dim2 [OF fr h] by simp
      then show "length (f' ! i ! j) = c"
        using e px [OF i j] j by (simp split: if_splits)
    qed
  qed
  then show ?thesis
    using d(2) len by (simp add: is_array3_iff)
qed

lemma process_frame_InrD:
  assumes "process_frame logo1 w1 h1 logo2 w2 h2 fw fh frame = Inr frame'"
  shows "\<exists>frame1.
           setitem_rect frame (fh div 2 - h1 div 2) (fh div 2 - h1 div 2 + h1)
             (fw div 4 - w1 div 2) (fw div 4 - w1 div 2 + w1) logo1 = Inr frame1
           \<and> setitem_rect frame1 (fh div 2 - h2 div 2) (fh div 2 - h2 div 2 + h2)
               (fw * 3 div 4 - w2 div 2) (fw * 3 div 4 - w2 div 2 + w2) logo2 = Inr frame'"
  using assms by (simp add: process_frame_def Let_def split: sum.splits)

text \<open>
  C8: a frame that \<open>process_frame\<close> composites keeps its shape: a frame of \<open>h\<close> rows,
  \<open>w\<close> columns and \<open>c\<close> channels comes out with \<open>h\<close> rows, \<open>w\<close> columns and \<open>c\<close>
  channels. The two slice assignments replace pixels and never add or remove a row or a
  column.
\<close>

theorem compositing_keeps_frame_size:
  assumes "is_array3 frame h w c"
    and "process_frame logo1 w1 h1 logo2 w2 h2 fw fh frame = Inr frame'"
  shows "is_array3 frame' h w c \<and> length frame' = length frame \<and> dim1 frame' = dim1 frame"
proof -
  from process_frame_InrD [OF assms(2)] obtain frame1 where
    s1: "setitem_rect frame (fh div 2 - h1 div 2) (fh div 2 - h1 div 2 + h1)
             (fw div 4 - w1 div 2) (fw div 4 - w1 div 2 + w1) logo1 = Inr frame1"
    and s2: "setitem_rect frame1 (fh div 2 - h2 div 2) (fh div 2 - h2 div 2 + h2)
               (fw * 3 div 4 - w2 div 2) (fw * 3 div 4 - w2 div 2 + w2) logo2 = Inr frame'"
    by blast
  have "is_array3 frame' h w c"
    using setitem_rect_shape [OF setitem_rect_shape [OF assms(1) s1] s2] .
  then show ?thesis
    using assms(1) is_array3_dim1 [of frame h w c] is_array3_dim1 [of frame' h w c]
    by (cases "0 < h") (auto simp add: is_array3_def dim1_def)
qed


theorem compositing_keeps_frame_size_witness:
  "is_array3 frame_8x4 4 8 3
   \<and> process_frame (Arr3 logo_left) 2 2 (Arr3 logo_right) 2 2 8 4 frame_8x4 = Inr composited_8x4
   \<and> is_array3 composited_8x4 4 8 3
   \<and> length composited_8x4 = length frame_8x4 \<and> dim1 composited_8x4 = dim1 frame_8x4"
proof -
  have a: "is_array3 frame_8x4 4 8 3"
    by code_simp
  have e: "process_frame (Arr3 logo_left) 2 2 (Arr3 logo_right) 2 2 8 4 frame_8x4
             = Inr composited_8x4"
    by code_simp
  from compositing_keeps_frame_size [OF a e] a e show ?thesis
    by blast
qed

lemma slice_len_inv:
  "0 < h \<Longrightarrow> 0 \<le> y + h \<Longrightarrow> slice_bound (y + h) H - slice_bound y H = nat h \<Longrightarrow>
     0 \<le> y \<and> y + h \<le> int H"
  by (auto simp add: slice_bound_def split: if_splits)

lemma slice_fits:
  "0 \<le> y \<Longrightarrow> 0 \<le> h \<Longrightarrow> y + h \<le> int H \<Longrightarrow>
     slice_bound y H = nat y \<and> slice_bound (y + h) H = nat (y + h)"
  by (auto simp add: slice_bound_def split: if_splits)

lemma bidx_less: "i < n \<Longrightarrow> bidx n i = i"
  by (auto simp add: bidx_def)

lemma map_nth_bidx: "length p = c \<Longrightarrow> map (\<lambda>k. p ! bidx c k) [0..<c] = p"
  by (auto intro: nth_equalityI simp add: bidx_less)

lemma setitem_rect_fits:
  assumes fr: "is_array3 frame H W C" "0 < H" "0 < W"
    and lg: "is_array3 a (nat h) (nat w) C" "0 < h" "0 < w"
    and ok: "setitem_rect frame y (y + h) x (x + w) (Arr3 a) = Inr f'"
    and ay: "0 \<le> y + h" "h = 1 \<Longrightarrow> 0 \<le> y \<and> y < int H"
    and ax: "0 \<le> x + w" "w = 1 \<Longrightarrow> 0 \<le> x \<and> x < int W"
  shows "0 \<le> y \<and> y + h \<le> int H \<and> 0 \<le> x \<and> x + w \<le> int W"
proof -
  have la: "length a = nat h"
    using lg(1) by (simp add: is_array3_def)
  have da: "dim1 a = nat w"
    using lg by (simp add: is_array3_dim1)
  have lf: "length frame = H"
    using fr(1) by (simp add: is_array3_def)
  have df: "dim1 frame = W"
    using fr by (simp add: is_array3_dim1)
  from setitem_rect_InrD(1) [OF ok]
  have b: "nat h = slice_bound (y + h) H - slice_bound y H \<or> nat h = 1"
    "nat w = slice_bound (x + w) W - slice_bound x W \<or> nat w = 1"
    by (simp_all add: broadcastable_def la da lf df)
  have "0 \<le> y \<and> y + h \<le> int H"
  proof (cases "h = 1")
    case True
    with ay(2) show ?thesis
      by auto
  next
    case False
    with b(1) lg(2) have "slice_bound (y + h) H - slice_bound y H = nat h"
      by auto
    from slice_len_inv [OF lg(2) ay(1) this] show ?thesis .
  qed
  moreover have "0 \<le> x \<and> x + w \<le> int W"
  proof (cases "w = 1")
    case True
    with ax(2) show ?thesis
      by auto
  next
    case False
    with b(2) lg(3) have "slice_bound (x + w) W - slice_bound x W = nat w"
      by auto
    from slice_len_inv [OF lg(3) ax(1) this] show ?thesis .
  qed
  ultimately show ?thesis
    by simp
qed

lemma setitem_rect_paste:
  assumes fr: "is_array3 frame H W C"
    and lg: "is_array3 a (nat h) (nat w) C" "0 < h" "0 < w"
    and fit: "0 \<le> y" "y + h \<le> int H" "0 \<le> x" "x + w \<le> int W"
    and ok: "setitem_rect frame y (y + h) x (x + w) (Arr3 a) = Inr f'"
    and i: "i < H" and j: "j < W"
  shows "f' ! i ! j =
           (if y \<le> int i \<and> int i < y + h \<and> x \<le> int j \<and> int j < x + w
            then a ! nat (int i - y) ! nat (int j - x)
            else frame ! i ! j)"
proof -
  have H: "0 < H" and W: "0 < W"
    using i j by simp_all
  have la: "length a = nat h"
    using lg(1) by (simp add: is_array3_def)
  have da: "dim1 a = nat w"
    using lg by (simp add: is_array3_dim1)
  have ca: "dim2 a = C"
    using lg by (simp add: is_array3_dim2)
  have lf: "length frame = H"
    using fr by (simp add: is_array3_def)
  have df: "dim1 frame = W"
    using fr H by (simp add: is_array3_dim1)
  have cf: "dim2 frame = C"
    using fr H W by (simp add: is_array3_dim2)
  have sy: "slice_bound y H = nat y" "slice_bound (y + h) H = nat (y + h)"
    using slice_fits [of y h H] fit lg(2) by simp_all
  have sx: "slice_bound x W = nat x" "slice_bound (x + w) W = nat (x + w)"
    using slice_fits [of x w W] fit lg(3) by simp_all
  have e: "f' ! i =
             (if nat y \<le> i \<and> i < nat (y + h)
              then map (\<lambda>j.
                     if nat x \<le> j \<and> j < nat (x + w)
                     then map (\<lambda>k. a ! bidx (nat h) (i - nat y) ! bidx (nat w) (j - nat x)
                                   ! bidx C k) [0..<C]
                     else frame ! i ! j) [0..<W]
              else frame ! i)"
    using setitem_rect_InrD(3) [OF ok, of i] i by (simp add: lf df cf la da ca sy sx)
  show ?thesis
  proof (cases "y \<le> int i \<and> int i < y + h \<and> x \<le> int j \<and> int j < x + w")
    case False
    then have "\<not> (nat y \<le> i \<and> i < nat (y + h) \<and> nat x \<le> j \<and> j < nat (x + w))"
      using fit by auto
    with e j False show ?thesis
      by auto
  next
    case True
    then have r: "nat y \<le> i" "i < nat (y + h)" "nat x \<le> j" "j < nat (x + w)"
      using fit by auto
    have ri: "i - nat y < nat h" and rj: "j - nat x < nat w"
      using r fit by auto
    have ix: "i - nat y = nat (int i - y)" "j - nat x = nat (int j - x)"
      using r fit by auto
    have "is_array3 a (nat h) (nat w) C"
      by (rule lg(1))
    then have "length (a ! (i - nat y) ! (j - nat x)) = C"
      using ri rj by (simp add: is_array3_iff)
    then have m: "map (\<lambda>k. a ! (i - nat y) ! (j - nat x) ! bidx C k) [0..<C]
                 = a ! (i - nat y) ! (j - nat x)"
      by (rule map_nth_bidx)
    have "f' ! i ! j = map (\<lambda>k. a ! bidx (nat h) (i - nat y) ! bidx (nat w) (j - nat x)
                                   ! bidx C k) [0..<C]"
      using e r j by simp
    then have "f' ! i ! j = map (\<lambda>k. a ! (i - nat y) ! (j - nat x) ! bidx C k) [0..<C]"
      by (simp only: bidx_less [OF ri] bidx_less [OF rj])
    with m have "f' ! i ! j = a ! (i - nat y) ! (j - nat x)"
      by simp
    then show ?thesis
      using True by (simp add: ix)
  qed
qed

text \<open>
  C5: whenever \<open>process_frame\<close> composites a frame of the probed geometry with two logos of
  the declared sizes and the frame's channels, the left logo lies at column
  \<open>frame_width div 4 - logo1_width div 2\<close>, row \<open>frame_height div 2 - logo1_height div 2\<close>
  and the right logo at column \<open>frame_width * 3 div 4 - logo2_width div 2\<close>, row
  \<open>frame_height div 2 - logo2_height div 2\<close>, each quotient floored on its own. Both
  rectangles lie inside the frame; a pixel in the right rectangle is the right logo's, any
  other pixel in the left rectangle is the left logo's, and every other pixel is the
  frame's.
\<close>

theorem logos_pasted_at_anchors:
  assumes fr: "is_array3 frame H W C" "0 < H" "0 < W"
    and geom: "fw = int W" "fh = int H"
    and l1: "is_array3 a1 (nat h1) (nat w1) C" "0 < h1" "0 < w1"
    and l2: "is_array3 a2 (nat h2) (nat w2) C" "0 < h2" "0 < w2"
    and ok: "process_frame (Arr3 a1) w1 h1 (Arr3 a2) w2 h2 fw fh frame = Inr frame'"
  shows "0 \<le> fw div 4 - w1 div 2 \<and> fw div 4 - w1 div 2 + w1 \<le> fw
       \<and> 0 \<le> fh div 2 - h1 div 2 \<and> fh div 2 - h1 div 2 + h1 \<le> fh
       \<and> 0 \<le> fw * 3 div 4 - w2 div 2 \<and> fw * 3 div 4 - w2 div 2 + w2 \<le> fw
       \<and> 0 \<le> fh div 2 - h2 div 2 \<and> fh div 2 - h2 div 2 + h2 \<le> fh
       \<and> (\<forall>i<H. \<forall>j<W. frame' ! i ! j =
            (if fh div 2 - h2 div 2 \<le> int i \<and> int i < fh div 2 - h2 div 2 + h2
                \<and> fw * 3 div 4 - w2 div 2 \<le> int j \<and> int j < fw * 3 div 4 - w2 div 2 + w2
             then a2 ! nat (int i - (fh div 2 - h2 div 2)) ! nat (int j - (fw * 3 div 4 - w2 div 2))
             else if fh div 2 - h1 div 2 \<le> int i \<and> int i < fh div 2 - h1 div 2 + h1
                \<and> fw div 4 - w1 div 2 \<le> int j \<and> int j < fw div 4 - w1 div 2 + w1
             then a1 ! nat (int i - (fh div 2 - h1 div 2)) ! nat (int j - (fw div 4 - w1 div 2))
             else frame ! i ! j))"
proof -
  let ?x1 = "fw div 4 - w1 div 2"
  let ?y1 = "fh div 2 - h1 div 2"
  let ?x2 = "fw * 3 div 4 - w2 div 2"
  let ?y2 = "fh div 2 - h2 div 2"
  from process_frame_InrD [OF ok] obtain frame1 where
    s1: "setitem_rect frame ?y1 (?y1 + h1) ?x1 (?x1 + w1) (Arr3 a1) = Inr frame1"
    and s2: "setitem_rect frame1 ?y2 (?y2 + h2) ?x2 (?x2 + w2) (Arr3 a2) = Inr frame'"
    by blast
  have fr1: "is_array3 frame1 H W C"
    using setitem_rect_shape [OF fr(1) s1] .
  have pos: "0 < fw" "0 < fh"
    using geom fr by simp_all
  have q: "0 \<le> fw div 4 \<and> fw div 4 < fw" "0 \<le> fw * 3 div 4 \<and> fw * 3 div 4 < fw"
    "0 \<le> fh div 2 \<and> fh div 2 < fh"
    using pos by linarith+
  have s: "0 \<le> w1 - w1 div 2" "0 \<le> w2 - w2 div 2" "0 \<le> h1 - h1 div 2" "0 \<le> h2 - h2 div 2"
    using l1 l2 by linarith+
  have z: "(1::int) div 2 = 0"
    by simp
  have f1: "0 \<le> ?y1 \<and> ?y1 + h1 \<le> int H \<and> 0 \<le> ?x1 \<and> ?x1 + w1 \<le> int W"
  proof (rule setitem_rect_fits [OF fr l1 s1])
    show "0 \<le> ?y1 + h1"
      using q(3) s(3) by linarith
    show "0 \<le> ?y1 \<and> ?y1 < int H" if "h1 = 1"
      using q(3) unfolding that z geom(2) by simp
    show "0 \<le> ?x1 + w1"
      using q(1) s(1) by linarith
    show "0 \<le> ?x1 \<and> ?x1 < int W" if "w1 = 1"
      using q(1) unfolding that z geom(1) by simp
  qed
  have f2: "0 \<le> ?y2 \<and> ?y2 + h2 \<le> int H \<and> 0 \<le> ?x2 \<and> ?x2 + w2 \<le> int W"
  proof (rule setitem_rect_fits [OF fr1 fr(2,3) l2 s2])
    show "0 \<le> ?y2 + h2"
      using q(3) s(4) by linarith
    show "0 \<le> ?y2 \<and> ?y2 < int H" if "h2 = 1"
      using q(3) unfolding that z geom(2) by simp
    show "0 \<le> ?x2 + w2"
      using q(2) s(2) by linarith
    show "0 \<le> ?x2 \<and> ?x2 < int W" if "w2 = 1"
      using q(2) unfolding that z geom(1) by simp
  qed
  have p1: "frame1 ! i ! j =
           (if ?y1 \<le> int i \<and> int i < ?y1 + h1 \<and> ?x1 \<le> int j \<and> int j < ?x1 + w1
            then a1 ! nat (int i - ?y1) ! nat (int j - ?x1)
            else frame ! i ! j)" if "i < H" "j < W" for i j
  proof (rule setitem_rect_paste [OF fr(1) l1 _ _ _ _ s1 that])
    show "0 \<le> ?y1" "?y1 + h1 \<le> int H" "0 \<le> ?x1" "?x1 + w1 \<le> int W"
      using f1 by blast+
  qed
  have p2: "frame' ! i ! j =
           (if ?y2 \<le> int i \<and> int i < ?y2 + h2 \<and> ?x2 \<le> int j \<and> int j < ?x2 + w2
            then a2 ! nat (int i - ?y2) ! nat (int j - ?x2)
            else frame1 ! i ! j)" if "i < H" "j < W" for i j
  proof (rule setitem_rect_paste [OF fr1 l2 _ _ _ _ s2 that])
    show "0 \<le> ?y2" "?y2 + h2 \<le> int H" "0 \<le> ?x2" "?x2 + w2 \<le> int W"
      using f2 by blast+
  qed
  have pix: "\<forall>i<H. \<forall>j<W. frame' ! i ! j =
            (if ?y2 \<le> int i \<and> int i < ?y2 + h2 \<and> ?x2 \<le> int j \<and> int j < ?x2 + w2
             then a2 ! nat (int i - ?y2) ! nat (int j - ?x2)
             else if ?y1 \<le> int i \<and> int i < ?y1 + h1 \<and> ?x1 \<le> int j \<and> int j < ?x1 + w1
             then a1 ! nat (int i - ?y1) ! nat (int j - ?x1)
             else frame ! i ! j)"
  proof (intro allI impI)
    fix i j assume ij: "i < H" "j < W"
    show "frame' ! i ! j =
            (if ?y2 \<le> int i \<and> int i < ?y2 + h2 \<and> ?x2 \<le> int j \<and> int j < ?x2 + w2
             then a2 ! nat (int i - ?y2) ! nat (int j - ?x2)
             else if ?y1 \<le> int i \<and> int i < ?y1 + h1 \<and> ?x1 \<le> int j \<and> int j < ?x1 + w1
             then a1 ! nat (int i - ?y1) ! nat (int j - ?x1)
             else frame ! i ! j)"
      by (simp only: p2 [OF ij] p1 [OF ij])
  qed
  have b1: "?x1 + w1 \<le> fw" "?y1 + h1 \<le> fh"
    using f1 geom by simp_all
  have b2: "?x2 + w2 \<le> fw" "?y2 + h2 \<le> fh"
    using f2 geom by simp_all
  show ?thesis
    using f1 f2 b1 b2 pix by blast
qed


theorem logos_pasted_at_anchors_witness:
  "process_frame (Arr3 logo_left) 2 2 (Arr3 logo_right) 2 2 8 4 frame_8x4 = Inr composited_8x4
   \<and> (8::int) div 4 - 2 div 2 = 1 \<and> (4::int) div 2 - 2 div 2 = 1 \<and> (8::int) * 3 div 4 - 2 div 2 = 5
   \<and> composited_8x4 ! 1 ! 1 = logo_left ! 0 ! 0
   \<and> composited_8x4 ! 2 ! 6 = logo_right ! 1 ! 1
   \<and> composited_8x4 ! 0 ! 0 = frame_8x4 ! 0 ! 0"
proof -
  have a: "is_array3 frame_8x4 4 8 3"
    by code_simp
  have l: "is_array3 logo_left (nat 2) (nat 2) 3" "is_array3 logo_right (nat 2) (nat 2) 3"
    by code_simp+
  have e: "process_frame (Arr3 logo_left) 2 2 (Arr3 logo_right) 2 2 (int 8) (int 4) frame_8x4
             = Inr composited_8x4"
    by code_simp
  have p: "\<forall>i<4. \<forall>j<8. composited_8x4 ! i ! j =
            (if int 4 div 2 - 2 div 2 \<le> int i \<and> int i < int 4 div 2 - 2 div 2 + 2
                \<and> int 8 * 3 div 4 - 2 div 2 \<le> int j \<and> int j < int 8 * 3 div 4 - 2 div 2 + 2
             then logo_right ! nat (int i - (int 4 div 2 - 2 div 2))
                    ! nat (int j - (int 8 * 3 div 4 - 2 div 2))
             else if int 4 div 2 - 2 div 2 \<le> int i \<and> int i < int 4 div 2 - 2 div 2 + 2
                \<and> int 8 div 4 - 2 div 2 \<le> int j \<and> int j < int 8 div 4 - 2 div 2 + 2
             then logo_left ! nat (int i - (int 4 div 2 - 2 div 2))
                    ! nat (int j - (int 8 div 4 - 2 div 2))
             else frame_8x4 ! i ! j)"
    using logos_pasted_at_anchors [OF a _ _ refl refl l(1) _ _ l(2) _ _ e] by simp
  have "composited_8x4 ! 1 ! 1 = logo_left ! 0 ! 0"
    using p [rule_format, of 1 1] by simp
  moreover have "composited_8x4 ! 2 ! 6 = logo_right ! 1 ! 1"
    using p [rule_format, of 2 6] by simp
  moreover have "composited_8x4 ! 0 ! 0 = frame_8x4 ! 0 ! 0"
    using p [rule_format, of 0 0] by simp
  moreover have "process_frame (Arr3 logo_left) 2 2 (Arr3 logo_right) 2 2 8 4 frame_8x4
             = Inr composited_8x4"
    using e by simp
  ultimately show ?thesis
    by simp
qed

lemma setitem_rect_channel_mismatch:
  "dim2 (as3d val) \<noteq> dim2 frame \<Longrightarrow> dim2 (as3d val) \<noteq> 1 \<Longrightarrow>
     setitem_rect frame ya yb xa xb val = Inl ValueError"
  by (simp add: setitem_rect_def broadcastable_def Let_def)

text \<open>
  C2: a logo with an alpha channel has four samples per pixel and a decoded frame has
  three, so the slice assignment of line 73 cannot broadcast the logo to the region and
  raises \<^verbatim>\<open>ValueError\<close>; the claim that compositing succeeds and overwrites the region fails
  on the code. On the example directory, with the left logo \<^verbatim>\<open>alpha.png\<close>, the run ends
  in \<^verbatim>\<open>ValueError\<close> on the first frame, with the writer open and no frame written.
\<close>

theorem alpha_logo_raises_value_error:
  "cv2_imread fs_demo ''alpha.png'' = Some (solid 2 2 [1, 2, 3, 255])
   \<and> fst (overlay_logos nearest fs_demo ''bg.mp4'' ''alpha.png'' ''right.png'' ''out.mp4'' 2)
       = Some ValueError
   \<and> snd (snd (overlay_logos nearest fs_demo ''bg.mp4'' ''alpha.png'' ''right.png'' ''out.mp4'' 2))
       = Some (Writer ''out.mp4'' 30 [] False)"
  by code_simp


end
